theory Spec2Isabelle
  imports Main "HOL-Library.AList"
begin

section \<open>The CoreNLP socket wrapper: data model\<close>

text \<open>
  The theory embeds \<^verbatim>\<open>stanford_corenlp_pywrapper/sockwrap.py\<close>: the client that
  launches the Java worker, talks to it over a socket or a named pipe and restarts it
  when it has died. Every Python exception the module can let escape is a value of
  \<open>exn\<close>; a function that may raise returns \<open>exn + 'a\<close> together with the world it
  leaves behind.
\<close>

datatype exn =
    AssertionError | SocketTimeout | SocketError | StructError | ValueError
  | TypeError | KeyError | IOError | OSError | AttributeError | UnboundLocalError

text \<open>
  What the operating system and the worker do is not in the source, so it is data of
  the model. A byte stream (a connection, or the named pipe) is the list of things its
  reader will meet: a segment of bytes that has arrived, or a failure of the read
  (\<open>SocketTimeout\<close>, \<open>SocketError\<close>, ...). An exhausted stream is at end of file:
  \<^verbatim>\<open>recv\<close> and \<^verbatim>\<open>read\<close> return the empty string there.
\<close>

datatype rd_event = Data string | Fail exn

record conn =
  send_fail :: "exn option"
  incoming :: "rd_event list"

datatype conn_outcome = Refused | Accepted conn

datatype pstatus = Running | Exited int

text \<open>
  The trace records every effect on the outside world, newest first. Durations are in
  milliseconds: \<^verbatim>\<open>time.sleep(0.01)\<close> is \<open>Sleep 10\<close>, a timeout of 2 seconds is
  \<open>2000\<close>.
\<close>

datatype event =
    Spawn string nat
  | Kill nat nat
  | Sleep nat
  | Connect nat
  | Close nat
  | SetTimeout nat nat
  | Send nat string
  | Recv nat nat
  | Write nat string
  | Read string nat
  | Mkfifo string
  | Unlink string
  | Open string
  | AtexitRegister

record world =
  procs :: "nat \<Rightarrow> pstatus"
  next_pid :: nat
  files :: "string set"
  fifo :: "string \<Rightarrow> rd_event list"
  dicts :: "nat \<Rightarrow> (string \<times> string) list"
  conn_script :: "conn_outcome list"
  socks :: "nat \<rightharpoonup> conn"
  next_sock :: nat
  stdin_fail :: "exn option"
  trace :: "event list"

text \<open>
  The fields of a \<^verbatim>\<open>CoreNLP\<close> object. \<open>proc\<close> is the \<^verbatim>\<open>Popen\<close> handle (the
  pid), \<open>configdict\<close> the address of the caller's dictionary in \<open>dicts\<close>,
  \<open>outpipe_fp\<close> the path of the pipe the read handle was opened on.
\<close>

record corenlp =
  mode :: "string option"
  proc :: "nat option"
  server_port :: int
  configfile :: "string option"
  configdict :: "nat option"
  comm_mode :: string
  outpipe :: "string option"
  classpath :: string
  outpipe_fp :: "string option"

section \<open>Library calls\<close>

definition log_event :: "event \<Rightarrow> world \<Rightarrow> world" where
  "log_event ev w = w\<lparr>trace := ev # trace w\<rparr>"

definition time_sleep :: "nat \<Rightarrow> world \<Rightarrow> world" where
  "time_sleep ms w = log_event (Sleep ms) w"

text \<open>
  A read asks for at most \<open>n\<close> bytes and gets a prefix of the segment at the head of
  the stream; what it leaves stays for the next read. A request for zero bytes returns
  the empty string without touching the stream.
\<close>

definition chan_read :: "nat \<Rightarrow> rd_event list \<Rightarrow> (exn + string) \<times> rd_event list" where
  "chan_read n ch =
     (if n = 0 then (Inr [], ch)
      else case ch of
          [] \<Rightarrow> (Inr [], [])
        | Fail e # r \<Rightarrow> (Inl e, r)
        | Data d # r \<Rightarrow> (Inr (take n d), if length d \<le> n then r else Data (drop n d) # r))"

definition sock_recv :: "nat \<Rightarrow> nat \<Rightarrow> world \<Rightarrow> (exn + string) \<times> world" where
  "sock_recv sock n w =
     (case socks w sock of
        None \<Rightarrow> (Inl SocketError, w)
      | Some c \<Rightarrow>
          (case chan_read n (incoming c) of
             (r, ch) \<Rightarrow>
               (r, log_event (Recv sock n) (w\<lparr>socks := (socks w)(sock \<mapsto> c\<lparr>incoming := ch\<rparr>)\<rparr>))))"

definition file_read :: "string option \<Rightarrow> nat \<Rightarrow> world \<Rightarrow> (exn + string) \<times> world" where
  "file_read fp n w =
     (case fp of
        None \<Rightarrow> (Inl AttributeError, w)
      | Some p \<Rightarrow>
          (case chan_read n (fifo w p) of
             (r, ch) \<Rightarrow> (r, log_event (Read p n) (w\<lparr>fifo := (fifo w)(p := ch)\<rparr>))))"

definition sock_settimeout :: "nat \<Rightarrow> nat \<Rightarrow> world \<Rightarrow> world" where
  "sock_settimeout sock tmo w = log_event (SetTimeout sock tmo) w"

definition sock_sendall :: "nat \<Rightarrow> string \<Rightarrow> world \<Rightarrow> (exn + unit) \<times> world" where
  "sock_sendall sock bs w =
     (case socks w sock of
        None \<Rightarrow> (Inl SocketError, w)
      | Some c \<Rightarrow>
          (case send_fail c of
             Some e \<Rightarrow> (Inl e, w)
           | None \<Rightarrow> (Inr (), log_event (Send sock bs) w)))"

definition sock_close :: "nat \<Rightarrow> world \<Rightarrow> world" where
  "sock_close sock w = log_event (Close sock) (w\<lparr>socks := (socks w)(sock := None)\<rparr>)"

text \<open>\<^verbatim>\<open>self.proc.stdin.write(...)\<close> followed by \<^verbatim>\<open>flush()\<close>.\<close>

definition stdin_write :: "nat option \<Rightarrow> string \<Rightarrow> world \<Rightarrow> (exn + unit) \<times> world" where
  "stdin_write p bs w =
     (case p of
        None \<Rightarrow> (Inl AttributeError, w)
      | Some pid \<Rightarrow>
          (case stdin_fail w of
             Some e \<Rightarrow> (Inl e, w)
           | None \<Rightarrow> (Inr (), log_event (Write pid bs) w)))"

text \<open>\<^verbatim>\<open>struct.unpack('>Q', s)[0]\<close>: eight bytes, big-endian, unsigned.\<close>

definition struct_unpack_Q :: "string \<Rightarrow> exn + nat" where
  "struct_unpack_Q bs =
     (if length bs = 8 then Inr (foldl (\<lambda>a c. a * 256 + of_char c) 0 bs)
      else Inl StructError)"

definition newline :: string where
  "newline = [CHR 0x0A]"

section \<open>The client\<close>

subsection \<open>\<^verbatim>\<open>get_socket\<close>\<close>

text \<open>
  The \<^verbatim>\<open>for trial in range(num_retries)\<close> loop, counted down: \<open>Suc k\<close> trials are
  left, and \<^verbatim>\<open>trial < num_retries-1\<close> is \<open>0 < k\<close>. Running out of trials reaches
  \<^verbatim>\<open>assert False\<close>. A connection attempt takes the next outcome of
  \<open>conn_script\<close>; with none left the connection is refused.
\<close>

fun get_socket :: "nat \<Rightarrow> nat \<Rightarrow> corenlp \<Rightarrow> world \<Rightarrow> (exn + nat) \<times> world" where
  "get_socket 0 retry_interval s w = (Inl AssertionError, w)"
| "get_socket (Suc k) retry_interval s w =
     (case conn_script w of
        Accepted c # cs \<Rightarrow>
          (Inr (next_sock w),
           log_event (Connect (next_sock w))
             (w\<lparr>conn_script := cs, socks := (socks w)(next_sock w \<mapsto> c),
                next_sock := Suc (next_sock w)\<rparr>))
      | _ \<Rightarrow>
          (let w1 = w\<lparr>conn_script := tl (conn_script w)\<rparr>;
               w2 = (if 0 < k then time_sleep retry_interval w1 else w1)
           in get_socket k retry_interval s w2))"

subsection \<open>\<^verbatim>\<open>send_command_and_get_string_result\<close>\<close>

definition curlen :: "string list \<Rightarrow> nat" where
  "curlen chunks = sum_list (map length chunks)"

definition recv_data :: "corenlp \<Rightarrow> nat \<Rightarrow> nat \<Rightarrow> world \<Rightarrow> (exn + string) \<times> world" where
  "recv_data s sock n w =
     (if comm_mode s = ''SOCKET'' then sock_recv sock n w
      else if comm_mode s = ''PIPE'' then file_read (outpipe_fp s) n w
      else (Inl UnboundLocalError, w))"

text \<open>
  The \<^verbatim>\<open>while True\<close> loop that accumulates the payload (lines 272 to 283), with
  \<open>chunks\<close> as its state. The result is \<open>None\<close> for \<^verbatim>\<open>return None\<close> and
  \<open>Some\<close> of the joined chunks after \<^verbatim>\<open>break\<close>. \<open>remaining_size\<close> is never
  negative: the loop is left as soon as \<open>curlen\<close> reaches \<open>size_info\<close>.
\<close>

function recv_chunks ::
  "corenlp \<Rightarrow> nat \<Rightarrow> nat \<Rightarrow> string list \<Rightarrow> world \<Rightarrow> (exn + string option) \<times> world" where
  "recv_chunks s sock size_info chunks w =
     (case recv_data s sock (size_info - curlen chunks) w of
        (Inl e, w1) \<Rightarrow> (Inl e, w1)
      | (Inr data, w1) \<Rightarrow>
          (if size_info \<le> curlen (chunks @ [data]) then (Inr (Some (concat (chunks @ [data]))), w1)
           else if 1000 < length (chunks @ [data]) then (Inr None, w1)
           else recv_chunks s sock size_info (chunks @ [data]) (time_sleep 10 w1)))"
  by pat_completeness auto
termination
  by (relation "measure (\<lambda>(s, sock, size_info, chunks, w). 1001 - length chunks)") auto

declare recv_chunks.simps [simp del]

definition send_command_and_get_string_result ::
  "corenlp \<Rightarrow> string \<Rightarrow> nat \<Rightarrow> world \<Rightarrow> (exn + string option) \<times> world" where
  "send_command_and_get_string_result s cmd tmo w =
     (case (if comm_mode s = ''SOCKET'' then
              (case get_socket 100 1000 s w of
                 (Inl e, w1) \<Rightarrow> (Inl e, w1)
               | (Inr sock, w1) \<Rightarrow>
                   (case sock_sendall sock (cmd @ newline) (sock_settimeout sock tmo w1) of
                      (Inl e, w2) \<Rightarrow> (Inl e, w2)
                    | (Inr u, w2) \<Rightarrow>
                        (case sock_recv sock 8 w2 of
                           (Inl e, w3) \<Rightarrow> (Inl e, w3)
                         | (Inr size_info_str, w3) \<Rightarrow> (Inr (sock, size_info_str), w3))))
            else if comm_mode s = ''PIPE'' then
              (case stdin_write (proc s) (cmd @ newline) w of
                 (Inl e, w1) \<Rightarrow> (Inl e, w1)
               | (Inr u, w1) \<Rightarrow>
                   (case file_read (outpipe_fp s) 8 w1 of
                      (Inl e, w2) \<Rightarrow> (Inl e, w2)
                    | (Inr size_info_str, w2) \<Rightarrow> (Inr (0, size_info_str), w2)))
            else (Inl UnboundLocalError, w)) of
        (Inl e, w1) \<Rightarrow> (Inl e, w1)
      | (Inr (sock, size_info_str), w1) \<Rightarrow>
          (case struct_unpack_Q size_info_str of
             Inl e \<Rightarrow> (Inl e, w1)
           | Inr size_info \<Rightarrow> recv_chunks s sock size_info [] w1))"

subsection \<open>\<^verbatim>\<open>kill_proc_if_running\<close> and \<^verbatim>\<open>cleanup\<close>\<close>

text \<open>
  \<^verbatim>\<open>Popen.poll()\<close> is \<open>None\<close> while the worker runs and its exit code afterwards.
  \<^verbatim>\<open>os.kill(pid, 9)\<close> cannot be caught by the worker: the model takes the worker to
  have exited with code \<open>-9\<close> when the call returns. A worker changes status in no
  other way during a call; between calls the world is arbitrary.
\<close>

definition proc_poll :: "nat \<Rightarrow> world \<Rightarrow> int option" where
  "proc_poll pid w = (case procs w pid of Running \<Rightarrow> None | Exited c \<Rightarrow> Some c)"

definition os_kill :: "nat \<Rightarrow> nat \<Rightarrow> world \<Rightarrow> (exn + unit) \<times> world" where
  "os_kill pid sig w =
     (case procs w pid of
        Exited c \<Rightarrow> (Inl OSError, w)
      | Running \<Rightarrow>
          (Inr (), log_event (Kill pid sig) (w\<lparr>procs := (procs w)(pid := Exited (- int sig))\<rparr>)))"


definition os_mkfifo :: "string \<Rightarrow> world \<Rightarrow> (exn + unit) \<times> world" where
  "os_mkfifo p w =
     (if p \<in> files w then (Inl OSError, w)
      else (Inr (), log_event (Mkfifo p) (w\<lparr>files := insert p (files w)\<rparr>)))"

definition kill_proc_if_running :: "corenlp \<Rightarrow> world \<Rightarrow> (exn + unit) \<times> world" where
  "kill_proc_if_running s w =
     (case proc s of
        None \<Rightarrow> (Inr (), w)
      | Some pid \<Rightarrow>
          (case proc_poll pid w of
             Some retcode \<Rightarrow> (Inr (), w)
           | None \<Rightarrow> os_kill pid 9 w))"


subsection \<open>\<^verbatim>\<open>command\<close>\<close>

text \<open>
  The JSON codec, glob expansion, the directory of the module, the process id and the
  clock belong to the interpreter and its libraries; they are parameters of the model.
\<close>

datatype json =
    JNull | JBool bool | JNum int | JStr string
  | JArr "json list" | JObj "(string \<times> json) list"

record pylib =
  json_loads :: "string \<Rightarrow> json option"
  json_dumps :: "(string \<times> string) list \<Rightarrow> string"
  glob_glob :: "string \<Rightarrow> string list"
  local_lib_glob :: string
  os_getpid :: nat
  time_time :: string

definition MODES :: "(string \<times> string) list" where
  "MODES =
     [(''ssplit'', ''tokenize, ssplit''),
      (''pos'', ''tokenize, ssplit, pos, lemma''),
      (''ner'', ''tokenize, ssplit, pos, lemma, ner, entitymentions''),
      (''parse'', ''tokenize, ssplit, pos, lemma, parse''),
      (''nerparse'', ''tokenize, ssplit, pos, lemma, ner, entitymentions, parse''),
      (''coref'', ''tokenize, ssplit, pos, lemma, ner, entitymentions, parse, dcoref'')]"

fun show_nat :: "nat \<Rightarrow> string" where
  "show_nat n = (if n < 10 then [char_of (48 + n)] else show_nat (n div 10) @ [char_of (48 + n mod 10)])"

declare show_nat.simps [simp del]

definition show_int :: "int \<Rightarrow> string" where
  "show_int i = (if i < 0 then CHR ''-'' # show_nat (nat (- i)) else show_nat (nat i))"

definition quote :: char where
  "quote = CHR 0x27"

text \<open>
  The block under \<^verbatim>\<open>if mode:\<close> (lines 61 to 67). It yields the dictionary that
  \<^verbatim>\<open>configdict\<close> names afterwards; when the caller supplied one, the assignment
  \<^verbatim>\<open>configdict['annotators'] = ...\<close> is a write to that object in the store.
\<close>

definition set_annotators ::
  "corenlp \<Rightarrow> world \<Rightarrow> (exn + (string \<times> string) list option) \<times> world" where
  "set_annotators s w =
     (case mode s of
        None \<Rightarrow> (Inr (map_option (dicts w) (configdict s)), w)
      | Some m \<Rightarrow>
          (if m = [] then (Inr (map_option (dicts w) (configdict s)), w)
           else
             (case configdict s of
                Some a \<Rightarrow>
                  (if map_of (dicts w a) ''annotators'' \<noteq> None then (Inl AssertionError, w)
                   else
                     (case map_of MODES m of
                        None \<Rightarrow> (Inl KeyError, w)
                      | Some ann \<Rightarrow>
                          (Inr (Some (AList.update ''annotators'' ann (dicts w a))),
                           w\<lparr>dicts := (dicts w)(a := AList.update ''annotators'' ann (dicts w a))\<rparr>)))
              | None \<Rightarrow>
                  (case map_of MODES m of
                     None \<Rightarrow> (Inl KeyError, w)
                   | Some ann \<Rightarrow> (Inr (Some [(''annotators'', ann)]), w)))))"

text \<open>The two \<^verbatim>\<open>more_config\<close> steps (lines 68 to 73), on the dictionary left by the
  block above.\<close>

definition more_config_of :: "pylib \<Rightarrow> corenlp \<Rightarrow> (string \<times> string) list option \<Rightarrow> exn + string" where
  "more_config_of L s cd =
     (let more_config1 =
            (case configfile s of
               None \<Rightarrow> []
             | Some f \<Rightarrow> (if f = [] then [] else '' --configfile '' @ f))
      in
        (case cd of
           None \<Rightarrow> Inr more_config1
         | Some d \<Rightarrow>
             (if d = [] then Inr more_config1
              else if quote \<in> set (json_dumps L d) then Inl AssertionError
              else Inr (more_config1 @ '' --configdict '' @ [quote] @ json_dumps L d @ [quote]))))"

text \<open>\<^verbatim>\<open>comm_info\<close> (lines 76 to 79). With any other mode the key is never set and
  \<^verbatim>\<open>COMMAND.format\<close> raises \<^verbatim>\<open>KeyError\<close>.\<close>

definition comm_info_of :: "corenlp \<Rightarrow> exn + string" where
  "comm_info_of s =
     (if comm_mode s = ''SOCKET'' then Inr (''--server '' @ show_int (server_port s))
      else if comm_mode s = ''PIPE'' then
        Inr (''--outpipe '' @ (case outpipe s of None \<Rightarrow> ''None'' | Some p \<Rightarrow> p))
      else Inl KeyError)"

definition format_COMMAND :: "string \<Rightarrow> string \<Rightarrow> string \<Rightarrow> string" where
  "format_COMMAND cp comm_info more_config =
     map (\<lambda>c. if c = CHR 0x0A then CHR '' '' else c)
       (newline @ ''exec java -Xmx4g -XX:ParallelGCThreads=1 -cp '' @ [quote] @ cp @ [quote]
          @ newline @ ''    corenlp.SocketServer '' @ comm_info @ '' '' @ more_config)"

definition command :: "pylib \<Rightarrow> corenlp \<Rightarrow> world \<Rightarrow> (exn + string) \<times> world" where
  "command L s w =
     (if mode s = None \<and> configfile s = None \<and> configdict s = None then (Inl AssertionError, w)
      else
        (case set_annotators s w of
           (Inl e, w1) \<Rightarrow> (Inl e, w1)
         | (Inr cd, w1) \<Rightarrow>
             (case more_config_of L s cd of
                Inl e \<Rightarrow> (Inl e, w1)
              | Inr more_config \<Rightarrow>
                  (case comm_info_of s of
                     Inl e \<Rightarrow> (Inl e, w1)
                   | Inr comm_info \<Rightarrow>
                       (Inr (format_COMMAND (classpath s) comm_info more_config), w1)))))"

subsection \<open>\<^verbatim>\<open>start_server\<close>, \<^verbatim>\<open>ensure_proc_is_running\<close>, \<^verbatim>\<open>send_command_and_parse_result\<close>\<close>

definition popen :: "string \<Rightarrow> world \<Rightarrow> nat \<times> world" where
  "popen cmd w =
     (next_pid w,
      log_event (Spawn cmd (next_pid w))
        (w\<lparr>procs := (procs w)(next_pid w := Running), next_pid := Suc (next_pid w)\<rparr>))"

definition file_open :: "string \<Rightarrow> world \<Rightarrow> (exn + string) \<times> world" where
  "file_open p w = (if p \<in> files w then (Inr p, log_event (Open p) w) else (Inl IOError, w))"

text \<open>The pipe is made unless it is there already (lines 163 to 165).\<close>

definition make_pipe :: "corenlp \<Rightarrow> world \<Rightarrow> (exn + unit) \<times> world" where
  "make_pipe s w =
     (if comm_mode s = ''PIPE'' then
        (case outpipe s of
           None \<Rightarrow> (Inl TypeError, w)
         | Some p \<Rightarrow> (if p \<notin> files w then os_mkfifo p w else (Inr (), w)))
      else (Inr (), w))"

text \<open>
  The channel is opened once (lines 172 to 176): a probe connection that is closed at
  once, or the read handle on the pipe, kept in \<^verbatim>\<open>self.outpipe_fp\<close>.
\<close>

definition open_channel :: "corenlp \<Rightarrow> world \<Rightarrow> (exn + unit) \<times> corenlp \<times> world" where
  "open_channel s w =
     (if comm_mode s = ''SOCKET'' then
        (case get_socket 100 1000 s w of
           (Inl e, w1) \<Rightarrow> (Inl e, s, w1)
         | (Inr sock, w1) \<Rightarrow> (Inr (), s, sock_close sock w1))
      else if comm_mode s = ''PIPE'' then
        (case outpipe s of
           None \<Rightarrow> (Inl TypeError, s, w)
         | Some p \<Rightarrow>
             (case file_open p w of
                (Inl e, w1) \<Rightarrow> (Inl e, s, w1)
              | (Inr fp, w1) \<Rightarrow> (Inr (), s\<lparr>outpipe_fp := Some fp\<rparr>, w1)))
      else (Inr (), s, w))"

text \<open>
  \<^verbatim>\<open>start_server\<close> up to the \<^verbatim>\<open>while True\<close> loop (lines 161 to 176): kill the old
  worker, make the pipe, build the command, spawn, wait, and open the channel once.
\<close>

definition launch :: "pylib \<Rightarrow> corenlp \<Rightarrow> world \<Rightarrow> (exn + unit) \<times> corenlp \<times> world" where
  "launch L s w =
     (case kill_proc_if_running s w of
        (Inl e, w1) \<Rightarrow> (Inl e, s, w1)
      | (Inr u, w1) \<Rightarrow>
          (case make_pipe s w1 of
             (Inl e, w2) \<Rightarrow> (Inl e, s, w2)
           | (Inr u, w2) \<Rightarrow>
               (case command L s w2 of
                  (Inl e, w3) \<Rightarrow> (Inl e, s, w3)
                | (Inr cmd, w3) \<Rightarrow>
                    (case popen cmd w3 of
                       (pid, w4) \<Rightarrow> open_channel (s\<lparr>proc := Some pid\<rparr>) (time_sleep 1000 w4)))))"

text \<open>
  What a call hands back: Python's \<open>None\<close>, the undecoded text (raw mode), or the
  decoded JSON value. JSON \<^verbatim>\<open>null\<close> decodes to \<open>None\<close>.
\<close>

datatype response = Absent | Raw string | Decoded json

definition to_response :: "json \<Rightarrow> response" where
  "to_response j = (case j of JNull \<Rightarrow> Absent | _ \<Rightarrow> Decoded j)"

definition ping_cmd :: string where
  "ping_cmd = ''PING'' @ [CHR 0x09, CHR 0x22, CHR 0x22]"

text \<open>\<^verbatim>\<open>ret == "PONG"\<close>, and whether \<^verbatim>\<open>"..." + ret\<close> in the assertion's message is
  defined (it is for strings only).\<close>

definition is_PONG :: "response \<Rightarrow> bool" where
  "is_PONG r = (r = Decoded (JStr ''PONG'') \<or> r = Raw ''PONG'')"

definition is_text :: "response \<Rightarrow> bool" where
  "is_text r = (case r of Raw t \<Rightarrow> True | Decoded (JStr t) \<Rightarrow> True | _ \<Rightarrow> False)"

text \<open>\<^verbatim>\<open>socket.timeout\<close> is a subclass of \<^verbatim>\<open>socket.error\<close>.\<close>

definition is_socket_error :: "exn \<Rightarrow> bool" where
  "is_socket_error e = (e = SocketError \<or> e = SocketTimeout)"

text \<open>
  The three methods call each other: a call first makes sure the worker runs, which may
  start the server, whose startup loop pings through the same call. The startup loop
  (lines 178 to 189) has no bound, so it runs on fuel: \<open>ping_loop\<close> spends one unit per
  iteration, and \<open>None\<close> means that the fuel did not suffice.
\<close>

fun start_server :: "pylib \<Rightarrow> nat \<Rightarrow> corenlp \<Rightarrow> world \<Rightarrow> ((exn + unit) \<times> corenlp \<times> world) option"
  and ping_loop :: "pylib \<Rightarrow> nat \<Rightarrow> corenlp \<Rightarrow> world \<Rightarrow> ((exn + unit) \<times> corenlp \<times> world) option"
  and ensure_proc_is_running ::
    "pylib \<Rightarrow> nat \<Rightarrow> corenlp \<Rightarrow> world \<Rightarrow> ((exn + unit) \<times> corenlp \<times> world) option"
  and send_command_and_parse_result ::
    "pylib \<Rightarrow> nat \<Rightarrow> corenlp \<Rightarrow> string \<Rightarrow> nat \<Rightarrow> bool \<Rightarrow> world
       \<Rightarrow> ((exn + response) \<times> corenlp \<times> world) option"
where
  "start_server L n s w =
     (case launch L s w of
        (Inl e, s1, w1) \<Rightarrow> Some (Inl e, s1, w1)
      | (Inr u, s1, w1) \<Rightarrow> ping_loop L n s1 w1)"
| "ping_loop L 0 s w = None"
| "ping_loop L (Suc n) s w =
     (case send_command_and_parse_result L n s ping_cmd 2000 False w of
        None \<Rightarrow> None
      | Some (Inl e, s1, w1) \<Rightarrow>
          (if is_socket_error e then ping_loop L n s1 (time_sleep 1000 w1)
           else Some (Inl e, s1, w1))
      | Some (Inr ret, s1, w1) \<Rightarrow>
          (if ret = Absent then ping_loop L n s1 w1
           else if is_PONG ret then Some (Inr (), s1, w1)
           else if is_text ret then Some (Inl AssertionError, s1, w1)
           else Some (Inl TypeError, s1, w1)))"
| "ensure_proc_is_running L n s w =
     (case proc s of
        None \<Rightarrow> start_server L n s w
      | Some pid \<Rightarrow>
          (if proc_poll pid w \<noteq> None then start_server L n s w
           else Some (Inr (), s, w)))"
| "send_command_and_parse_result L n s cmd tmo raw w =
     (case ensure_proc_is_running L n s w of
        None \<Rightarrow> None
      | Some (Inl e, s1, w1) \<Rightarrow>
          (if e = SocketTimeout then Some (Inr Absent, s1, w1) else Some (Inl e, s1, w1))
      | Some (Inr u, s1, w1) \<Rightarrow>
          (case send_command_and_get_string_result s1 cmd tmo w1 of
             (Inl e, w2) \<Rightarrow>
               (if e = SocketTimeout then Some (Inr Absent, s1, w2) else Some (Inl e, s1, w2))
           | (Inr None, w2) \<Rightarrow> Some (Inr Absent, s1, w2)
           | (Inr (Some data), w2) \<Rightarrow>
               (if raw then Some (Inr (Raw data), s1, w2)
                else
                  (case json_loads L data of
                     None \<Rightarrow> Some (Inr Absent, s1, w2)
                   | Some decoded \<Rightarrow> Some (Inr (to_response decoded), s1, w2)))))"

declare start_server.simps [simp del]
declare ping_loop.simps [simp del]
declare ensure_proc_is_running.simps [simp del]
declare send_command_and_parse_result.simps [simp del]

subsection \<open>\<^verbatim>\<open>__init__\<close>\<close>

fun join_colon :: "string list \<Rightarrow> string" where
  "join_colon [] = []"
| "join_colon [x] = x"
| "join_colon (x # y # ys) = x @ CHR '':'' # join_colon (y # ys)"

text \<open>
  The constructor. \<open>corenlp_jars\<close> is a list of strings, so the \<^verbatim>\<open>isinstance\<close>
  assertion holds by its type. The object under construction is returned with the
  outcome, also when the constructor raises.
\<close>

text \<open>\<^verbatim>\<open>"%s_%s" % (outpipe_filename_prefix, "pypid=%d_time=%s" % (os.getpid(), time.time()))\<close>\<close>

definition pipe_name :: "pylib \<Rightarrow> string \<Rightarrow> string" where
  "pipe_name L outpipe_filename_prefix =
     outpipe_filename_prefix @ ''_'' @ ''pypid='' @ show_nat (os_getpid L) @ ''_time='' @ time_time L"

definition init ::
  "pylib \<Rightarrow> nat \<Rightarrow> string option \<Rightarrow> int \<Rightarrow> string \<Rightarrow> string \<Rightarrow> string option \<Rightarrow> nat option
     \<Rightarrow> string list \<Rightarrow> world \<Rightarrow> ((exn + unit) \<times> corenlp \<times> world) option" where
  "init L n mode0 server_port0 comm_mode0 outpipe_filename_prefix configfile0 configdict0
        corenlp_jars w =
     (let s0 = \<lparr>mode = mode0, proc = None, server_port = server_port0, configfile = configfile0,
                configdict = configdict0, comm_mode = comm_mode0, outpipe = None,
                classpath = [], outpipe_fp = None\<rparr>;
          pipe = pipe_name L outpipe_filename_prefix;
          s1 = (if comm_mode0 = ''PIPE'' then s0\<lparr>outpipe := Some pipe\<rparr> else s0)
      in
        if comm_mode0 = ''PIPE'' \<and> pipe \<in> files w then Some (Inl AssertionError, s1, w)
        else if \<not> (\<exists>f \<in> set (concat (map (glob_glob L) corenlp_jars)). f \<in> files w)
          then Some (Inl AssertionError, s1, w)
        else
          (case start_server L n (s1\<lparr>classpath := join_colon (local_lib_glob L # corenlp_jars)\<rparr>) w of
             None \<Rightarrow> None
           | Some (Inl e, s2, w2) \<Rightarrow> Some (Inl e, s2, w2)
           | Some (Inr u, s2, w2) \<Rightarrow> Some (Inr (), s2, log_event AtexitRegister w2)))"

section \<open>Vocabulary of the properties\<close>

text \<open>The number of receive attempts made so far, on a socket or on the pipe.\<close>

fun is_read :: "event \<Rightarrow> bool" where
  "is_read (Recv sock n) = True"
| "is_read (Read p n) = True"
| "is_read ev = False"

definition recvs :: "world \<Rightarrow> nat" where
  "recvs w = length (filter is_read (trace w))"

fun is_sleep :: "event \<Rightarrow> bool" where
  "is_sleep (Sleep ms) = True"
| "is_sleep ev = False"

definition sleeps :: "world \<Rightarrow> event list" where
  "sleeps w = filter is_sleep (trace w)"

text \<open>The stream the accumulation loop reads from, when it has one.\<close>

definition channel_of :: "corenlp \<Rightarrow> nat \<Rightarrow> world \<Rightarrow> rd_event list option" where
  "channel_of s sock w =
     (if comm_mode s = ''SOCKET'' then map_option incoming (socks w sock)
      else if comm_mode s = ''PIPE'' then map_option (fifo w) (outpipe_fp s)
      else None)"

text \<open>A stream on which every read returns, and the number of bytes it will ever deliver.\<close>

fun is_data :: "rd_event \<Rightarrow> bool" where
  "is_data (Data d) = True"
| "is_data (Fail e) = False"

fun ev_len :: "rd_event \<Rightarrow> nat" where
  "ev_len (Data d) = length d"
| "ev_len (Fail e) = 0"

definition delivers :: "rd_event list \<Rightarrow> nat" where
  "delivers ch = sum_list (map ev_len ch)"

text \<open>
  The events of one request and response exchange. The others change what exists:
  they spawn or kill a worker, close a socket, make, open or remove the pipe, or
  register the exit hook.
\<close>

fun is_exchange :: "event \<Rightarrow> bool" where
  "is_exchange (Sleep ms) = True"
| "is_exchange (Connect sock) = True"
| "is_exchange (SetTimeout sock tmo) = True"
| "is_exchange (Send sock bs) = True"
| "is_exchange (Recv sock n) = True"
| "is_exchange (Write pid bs) = True"
| "is_exchange (Read p n) = True"
| "is_exchange ev = False"

fun is_settimeout :: "event \<Rightarrow> bool" where
  "is_settimeout (SetTimeout sock tmo) = True"
| "is_settimeout ev = False"

definition timeouts :: "world \<Rightarrow> event list" where
  "timeouts w = filter is_settimeout (trace w)"

text \<open>The configuration a session was constructed with: everything but the process
  handle and the pipe's read handle.\<close>

definition same_config :: "corenlp \<Rightarrow> corenlp \<Rightarrow> bool" where
  "same_config s s' =
     (mode s' = mode s \<and> configfile s' = configfile s \<and> configdict s' = configdict s
      \<and> comm_mode s' = comm_mode s \<and> server_port s' = server_port s
      \<and> outpipe s' = outpipe s \<and> classpath s' = classpath s)"

text \<open>
  What may happen to the dictionaries of the store: each is as it was, or it had no
  \<open>annotators\<close> key and got one.
\<close>

definition annotated_only :: "world \<Rightarrow> world \<Rightarrow> bool" where
  "annotated_only w w' =
     (\<forall>a. dicts w' a = dicts w a
          \<or> (map_of (dicts w a) ''annotators'' = None
             \<and> (\<exists>ann. dicts w' a = AList.update ''annotators'' ann (dicts w a))))"

definition config_kept :: "corenlp \<Rightarrow> world \<Rightarrow> corenlp \<Rightarrow> world \<Rightarrow> bool" where
  "config_kept s w s' w' = (same_config s s' \<and> annotated_only w w')"

section \<open>Sample sessions and worlds\<close>

text \<open>
  Concrete inputs on which the properties below are exercised: a library whose JSON
  decoder knows the two payloads that matter here, an empty world, a session in each
  mode, and length headers.
\<close>

definition pong_payload :: string where
  "pong_payload = [CHR 0x22] @ ''PONG'' @ [CHR 0x22]"

definition lib0 :: pylib where
  "lib0 = \<lparr>json_loads = (\<lambda>t. if t = pong_payload then Some (JStr ''PONG'')
                               else if t = ''null'' then Some JNull else None),
           json_dumps = (\<lambda>d. ''{}''),
           glob_glob = (\<lambda>p. [p]),
           local_lib_glob = ''lib/*'',
           os_getpid = 42,
           time_time = ''0.0''\<rparr>"

definition world0 :: world where
  "world0 = \<lparr>procs = (\<lambda>pid. Running), next_pid = 1, files = {}, fifo = (\<lambda>p. []),
             dicts = (\<lambda>a. []), conn_script = [], socks = Map.empty, next_sock = 0,
             stdin_fail = None, trace = []\<rparr>"

definition session0 :: "string \<Rightarrow> corenlp" where
  "session0 cm = \<lparr>mode = Some ''ssplit'', proc = Some 0, server_port = 12340, configfile = None,
                  configdict = None, comm_mode = cm,
                  outpipe = (if cm = ''PIPE'' then Some ''/tmp/p'' else None),
                  classpath = ''lib/*'',
                  outpipe_fp = (if cm = ''PIPE'' then Some ''/tmp/p'' else None)\<rparr>"

definition header :: "nat \<Rightarrow> string" where
  "header b = [CHR 0x00, CHR 0x00, CHR 0x00, CHR 0x00, CHR 0x00, CHR 0x00, CHR 0x00, char_of b]"

definition parsedoc_cmd :: string where
  "parsedoc_cmd = ''PARSEDOC'' @ [CHR 0x09, CHR 0x22] @ ''Hello world.'' @ [CHR 0x22]"

definition serving :: "rd_event list \<Rightarrow> conn_outcome" where
  "serving ch = Accepted \<lparr>send_fail = None, incoming = ch\<rparr>"

text \<open>A session that has not started its worker yet, and a world in which the server
  accepts the probe connection and then answers one ping.\<close>

definition fresh_session :: "string \<Rightarrow> corenlp" where
  "fresh_session cm = (session0 cm)\<lparr>proc := None, outpipe_fp := None\<rparr>"

definition boot_world :: world where
  "boot_world = world0\<lparr>conn_script := [serving [], serving [Data (header 6), Data pong_payload]]\<rparr>"

section \<open>The accumulation loop is bounded\<close>

lemma chan_read_data:
  "list_all is_data ch \<Longrightarrow> \<exists>d ch'. chan_read n ch = (Inr d, ch') \<and> list_all is_data ch' \<and> length d + delivers ch' = delivers ch"
  by (cases ch; cases "hd ch") (auto simp: chan_read_def delivers_def split: list.splits rd_event.splits)


lemma recv_data_all_data:
  assumes "channel_of s sock w = Some ch" "list_all is_data ch"
  shows "\<exists>d w' ch'. recv_data s sock n w = (Inr d, w') \<and> channel_of s sock w' = Some ch'
     \<and> list_all is_data ch' \<and> length d + delivers ch' = delivers ch \<and> recvs w' = Suc (recvs w) \<and> sleeps w' = sleeps w"
  using assms chan_read_data[OF assms(2), of n]
  by (auto simp: recv_data_def sock_recv_def file_read_def recvs_def sleeps_def log_event_def channel_of_def split: option.splits prod.splits if_splits)

lemma sleep_facts: "recvs (time_sleep k w) = recvs w" "channel_of s sock (time_sleep k w) = channel_of s sock w"
  "sleeps (time_sleep k w) = Sleep k # sleeps w"
  by (auto simp: time_sleep_def log_event_def recvs_def channel_of_def sleeps_def)

lemma curlen_snoc: "curlen (chunks @ [d]) = curlen chunks + length d"
  by (simp add: curlen_def)


lemma recv_chunks_starved:
  "channel_of s sock w = Some ch \<Longrightarrow> list_all is_data ch \<Longrightarrow> curlen chunks + delivers ch < n
   \<Longrightarrow> length chunks \<le> 1000
   \<Longrightarrow> \<exists>w'. recv_chunks s sock n chunks w = (Inr None, w') \<and> recvs w' = recvs w + (1001 - length chunks)
         \<and> sleeps w' = replicate (1000 - length chunks) (Sleep 10) @ sleeps w"
proof (induction s sock n chunks w arbitrary: ch rule: recv_chunks.induct)
  case (1 s sock size_info chunks w)
  from recv_data_all_data[OF "1.prems"(1,2), of "size_info - curlen chunks"]
  obtain d w1 ch1 where rd: "recv_data s sock (size_info - curlen chunks) w = (Inr d, w1)"
    and ch1: "channel_of s sock w1 = Some ch1" "list_all is_data ch1"
    and len: "length d + delivers ch1 = delivers ch" and rc: "recvs w1 = Suc (recvs w)" 
    and sl: "sleeps w1 = sleeps w" by blast
  have small: "\<not> size_info \<le> curlen (chunks @ [d])" using len "1.prems"(3) by (simp add: curlen_snoc)
  show ?case
  proof (cases "1000 < length (chunks @ [d])")
    case True
    then have "length chunks = 1000" using "1.prems"(4) by simp
    then show ?thesis using rd small True rc sl by (subst recv_chunks.simps) simp
  next
    case False
    have c: "channel_of s sock (time_sleep 10 w1) = Some ch1" using ch1 by (simp add: sleep_facts)
    have "curlen (chunks @ [d]) + delivers ch1 < size_info" using len "1.prems"(3) by (simp add: curlen_snoc)
    from "1.IH"[OF rd[symmetric] refl small False c ch1(2) this] False
    obtain w' where w': "recv_chunks s sock size_info (chunks @ [d]) (time_sleep 10 w1) = (Inr None, w')"
      "recvs w' = recvs (time_sleep 10 w1) + (1001 - length (chunks @ [d]))"
      "sleeps w' = replicate (1000 - length (chunks @ [d])) (Sleep 10) @ sleeps (time_sleep 10 w1)" by auto
    have "replicate (1000 - length (chunks @ [d])) (Sleep 10) @ [Sleep 10] = replicate (1000 - length chunks) (Sleep 10)"
      using False by (simp add: replicate_append_same Suc_diff_Suc flip: replicate_Suc)
    then have "replicate (1000 - length (chunks @ [d])) (Sleep 10) @ Sleep 10 # sleeps w = replicate (1000 - length chunks) (Sleep 10) @ sleeps w"
      by (metis append.assoc append_Cons append_Nil)
    then show ?thesis using rd small False w' rc sl 
      by (subst recv_chunks.simps) (simp add: sleep_facts)
  qed
qed




lemma get_socket_accepted:
  "0 < k \<Longrightarrow> conn_script w = Accepted c # cs \<Longrightarrow>
   get_socket k ri s w =
     (Inr (next_sock w),
      log_event (Connect (next_sock w))
        (w\<lparr>conn_script := cs, socks := (socks w)(next_sock w \<mapsto> c), next_sock := Suc (next_sock w)\<rparr>))"
  by (cases k) simp_all


lemma get_string_result_socket_starved:
  assumes "comm_mode s = ''SOCKET''" "conn_script w = Accepted c # cs" "send_fail c = None"
    "incoming c = Data hdr # ch" "struct_unpack_Q hdr = Inr n" "list_all is_data ch" "delivers ch < n"
  shows "\<exists>w'. send_command_and_get_string_result s cmd tmo w = (Inr None, w') \<and> recvs w' = recvs w + 1002"
proof -
  have len: "length hdr = 8" using assms(5) by (auto simp: struct_unpack_Q_def split: if_splits)
  define w3 where "w3 = snd (sock_recv (next_sock w) 8 (snd (sock_sendall (next_sock w) (cmd @ newline)
     (sock_settimeout (next_sock w) tmo (snd (get_socket 100 1000 s w))))))"
  have pre: "send_command_and_get_string_result s cmd tmo w = recv_chunks s (next_sock w) n [] w3"
    using assms(1,3,4,5) len
    by (simp add: send_command_and_get_string_result_def get_socket_accepted[OF _ assms(2)] sock_settimeout_def
        sock_sendall_def sock_recv_def log_event_def chan_read_def w3_def)
  have ch: "channel_of s (next_sock w) w3 = Some ch" using assms(1,3,4) len
    by (simp add: channel_of_def w3_def get_socket_accepted[OF _ assms(2)] sock_settimeout_def
        sock_sendall_def sock_recv_def log_event_def chan_read_def)
  have r3: "recvs w3 = Suc (recvs w)" using assms(1,3,4) len
    by (simp add: recvs_def w3_def get_socket_accepted[OF _ assms(2)] sock_settimeout_def
        sock_sendall_def sock_recv_def log_event_def chan_read_def)
  from recv_chunks_starved[OF ch assms(6), of "[]" n] assms(7)
  show ?thesis using pre r3 by (auto simp: curlen_def)
qed




lemma unpack_header: "b < 256 \<Longrightarrow> struct_unpack_Q (header b) = Inr b"
  by (simp add: struct_unpack_Q_def header_def)


section \<open>What a call leaves untouched\<close>

lemma recv_data_frame:
  "recv_data s sock n w = (r, w') \<Longrightarrow>
     procs w' = procs w \<and> next_pid w' = next_pid w \<and> files w' = files w \<and> dicts w' = dicts w
     \<and> conn_script w' = conn_script w \<and> next_sock w' = next_sock w
     \<and> dom (socks w') = dom (socks w)
     \<and> (\<exists>evs. trace w' = evs @ trace w \<and> list_all is_read evs)"
  by (auto simp: recv_data_def sock_recv_def file_read_def log_event_def
      split: if_splits option.splits prod.splits)

lemma recv_chunks_frame:
  "recv_chunks s sock n chunks w = (r, w') \<Longrightarrow>
     procs w' = procs w \<and> next_pid w' = next_pid w \<and> files w' = files w \<and> dicts w' = dicts w
     \<and> conn_script w' = conn_script w \<and> next_sock w' = next_sock w
     \<and> dom (socks w') = dom (socks w)
     \<and> (\<exists>evs. trace w' = evs @ trace w \<and> list_all (\<lambda>e. is_read e \<or> is_sleep e) evs)"
proof (induction s sock n chunks w arbitrary: r w' rule: recv_chunks.induct)
  case (1 s sock size_info chunks w)
  obtain r1 w1 where rd: "recv_data s sock (size_info - curlen chunks) w = (r1, w1)" by force
  note f1 = recv_data_frame[OF rd]
  from f1 obtain evs1 where e1: "trace w1 = evs1 @ trace w" "list_all is_read evs1" by blast
  have e1': "list_all (\<lambda>e. is_read e \<or> is_sleep e) evs1" using e1(2) by (simp add: list_all_iff)
  show ?case
  proof (cases r1)
    case (Inl e)
    then have "w' = w1" using rd "1.prems" by (subst (asm) recv_chunks.simps) simp
    then show ?thesis using f1 e1 e1' by auto
  next
    case (Inr data)
    show ?thesis
    proof (cases "size_info \<le> curlen (chunks @ [data]) \<or> 1000 < length (chunks @ [data])")
      case True
      then have "w' = w1" using rd Inr "1.prems" by (subst (asm) recv_chunks.simps) (auto split: if_splits)
      then show ?thesis using f1 e1 e1' by auto
    next
      case False
      then have rec: "recv_chunks s sock size_info (chunks @ [data]) (time_sleep 10 w1) = (r, w')"
        using rd Inr "1.prems" by (subst (asm) recv_chunks.simps) simp
      from False have n1: "\<not> size_info \<le> curlen (chunks @ [data])" and n2: "\<not> 1000 < length (chunks @ [data])" by auto
      note ih = "1.IH"[OF rd[symmetric] Inr n1 n2 rec]
      from ih obtain evs2 where e2: "trace w' = evs2 @ trace (time_sleep 10 w1)"
        "list_all (\<lambda>e. is_read e \<or> is_sleep e) evs2" by blast
      have "trace w' = (evs2 @ Sleep 10 # evs1) @ trace w" using e2(1) e1(1)
        by (simp add: time_sleep_def log_event_def)
      moreover have "list_all (\<lambda>e. is_read e \<or> is_sleep e) (evs2 @ Sleep 10 # evs1)" using e2(2) e1' by simp
      ultimately have "\<exists>evs. trace w' = evs @ trace w \<and> list_all (\<lambda>e. is_read e \<or> is_sleep e) evs" by blast
      then show ?thesis using ih f1 by (simp add: time_sleep_def log_event_def)
    qed
  qed
qed

lemma ensure_running:
  "proc s = Some pid \<Longrightarrow> procs w pid = Running \<Longrightarrow> ensure_proc_is_running L k s w = Some (Inr (), s, w)"
  by (simp add: ensure_proc_is_running.simps proc_poll_def)

lemma ensure_restarts:
  "proc s = None \<or> (\<exists>pid c. proc s = Some pid \<and> procs w pid = Exited c) \<Longrightarrow>
   ensure_proc_is_running L k s w = start_server L k s w"
  by (auto simp: ensure_proc_is_running.simps proc_poll_def)

lemma parse_result_running:
  assumes "proc s = Some pid" "procs w pid = Running"
  shows "send_command_and_parse_result L k s cmd tmo raw w =
     (case send_command_and_get_string_result s cmd tmo w of
        (Inl e, w2) \<Rightarrow> (if e = SocketTimeout then Some (Inr Absent, s, w2) else Some (Inl e, s, w2))
      | (Inr None, w2) \<Rightarrow> Some (Inr Absent, s, w2)
      | (Inr (Some data), w2) \<Rightarrow>
          (if raw then Some (Inr (Raw data), s, w2)
           else (case json_loads L data of
                   None \<Rightarrow> Some (Inr Absent, s, w2)
                 | Some decoded \<Rightarrow> Some (Inr (to_response decoded), s, w2))))"
  by (simp add: send_command_and_parse_result.simps ensure_running[OF assms])

lemma get_socket_refused:
  "\<not> (\<exists>c cs. conn_script w = Accepted c # cs) \<Longrightarrow>
   get_socket (Suc k) ri s w =
     get_socket k ri s (if 0 < k then time_sleep ri (w\<lparr>conn_script := tl (conn_script w)\<rparr>)
                        else w\<lparr>conn_script := tl (conn_script w)\<rparr>)"
  by (auto simp: Let_def split: list.splits conn_outcome.splits)

lemma get_socket_frame:
  "get_socket k ri s w = (r, w') \<Longrightarrow>
     procs w' = procs w \<and> next_pid w' = next_pid w \<and> files w' = files w \<and> dicts w' = dicts w
     \<and> fifo w' = fifo w \<and> stdin_fail w' = stdin_fail w
     \<and> dom (socks w) \<subseteq> dom (socks w')
     \<and> (\<exists>evs. trace w' = evs @ trace w \<and> list_all is_exchange evs)"
proof (induction k arbitrary: w r w')
  case 0
  then show ?case by auto
next
  case (Suc k)
  show ?case
  proof (cases "\<exists>c cs. conn_script w = Accepted c # cs")
    case True
    then show ?thesis using Suc.prems by (auto simp: log_event_def)
  next
    case False
    define w2 where "w2 = (if 0 < k then time_sleep ri (w\<lparr>conn_script := tl (conn_script w)\<rparr>) else w\<lparr>conn_script := tl (conn_script w)\<rparr>)"
    have rec: "get_socket k ri s w2 = (r, w')"
      using get_socket_refused[OF False, of k ri s] Suc.prems by (simp add: w2_def)
    note ih = Suc.IH[OF rec]
    then obtain evs where e: "trace w' = evs @ trace w2" "list_all is_exchange evs" by blast
    have "\<exists>evs0. trace w2 = evs0 @ trace w \<and> list_all is_exchange evs0"
      by (auto simp: w2_def time_sleep_def log_event_def)
    then obtain evs0 where e0: "trace w2 = evs0 @ trace w" "list_all is_exchange evs0" by blast
    have "trace w' = (evs @ evs0) @ trace w \<and> list_all is_exchange (evs @ evs0)" using e e0 by simp
    then have ex: "\<exists>evs. trace w' = evs @ trace w \<and> list_all is_exchange evs" by blast
    have same: "procs w2 = procs w" "next_pid w2 = next_pid w" "files w2 = files w" "dicts w2 = dicts w"
      "fifo w2 = fifo w" "stdin_fail w2 = stdin_fail w" "socks w2 = socks w"
      by (simp_all add: w2_def time_sleep_def log_event_def)
    show ?thesis using ih ex unfolding same by blast
  qed
qed

lemma reads_sleeps_exchange:
  "list_all (\<lambda>e. is_read e \<or> is_sleep e) evs \<Longrightarrow> list_all is_exchange evs \<and> filter is_settimeout evs = []"
proof (induction evs)
  case Nil
  then show ?case by simp
next
  case (Cons e evs)
  then show ?case by (cases e) auto
qed

text \<open>The header exchange of \<^verbatim>\<open>send_command_and_get_string_result\<close> (lines 255 to 263).\<close>

lemma get_string_result_frame:
  assumes "send_command_and_get_string_result s cmd tmo w = (r, w')"
  shows "procs w' = procs w \<and> next_pid w' = next_pid w \<and> files w' = files w \<and> dicts w' = dicts w
     \<and> dom (socks w) \<subseteq> dom (socks w')
     \<and> (\<exists>evs. trace w' = evs @ trace w \<and> list_all is_exchange evs)"
proof -
  let ?G = "\<lambda>w0 w1. procs w1 = procs w0 \<and> next_pid w1 = next_pid w0 \<and> files w1 = files w0 \<and> dicts w1 = dicts w0
     \<and> dom (socks w0) \<subseteq> dom (socks w1)
     \<and> (\<exists>evs. trace w1 = evs @ trace w0 \<and> list_all is_exchange evs)"
  have trans: "?G a c" if "?G a b" "?G b c" for a b c
  proof -
    from that obtain e1 e2 where "trace b = e1 @ trace a" "list_all is_exchange e1"
      "trace c = e2 @ trace b" "list_all is_exchange e2" by blast
    then have "trace c = (e2 @ e1) @ trace a \<and> list_all is_exchange (e2 @ e1)" by simp
    then have "\<exists>evs. trace c = evs @ trace a \<and> list_all is_exchange evs" by blast
    moreover have "dom (socks a) \<subseteq> dom (socks c)" using that by (meson subset_trans)
    ultimately show ?thesis using that by simp
  qed
  have loop: "?G w1 w2" if "recv_chunks s sock n [] w1 = (r2, w2)" for sock n w1 r2 w2
    using recv_chunks_frame[OF that] reads_sleeps_exchange by blast
  have refl: "?G w w" by auto
  obtain hr w1 where hd: "(if comm_mode s = ''SOCKET'' then
              (case get_socket 100 1000 s w of
                 (Inl e, w1) \<Rightarrow> (Inl e, w1)
               | (Inr sock, w1) \<Rightarrow>
                   (case sock_sendall sock (cmd @ newline) (sock_settimeout sock tmo w1) of
                      (Inl e, w2) \<Rightarrow> (Inl e, w2)
                    | (Inr u, w2) \<Rightarrow>
                        (case sock_recv sock 8 w2 of
                           (Inl e, w3) \<Rightarrow> (Inl e, w3)
                         | (Inr size_info_str, w3) \<Rightarrow> (Inr (sock, size_info_str), w3))))
            else if comm_mode s = ''PIPE'' then
              (case stdin_write (proc s) (cmd @ newline) w of
                 (Inl e, w1) \<Rightarrow> (Inl e, w1)
               | (Inr u, w1) \<Rightarrow>
                   (case file_read (outpipe_fp s) 8 w1 of
                      (Inl e, w2) \<Rightarrow> (Inl e, w2)
                    | (Inr size_info_str, w2) \<Rightarrow> (Inr (0, size_info_str), w2)))
            else (Inl UnboundLocalError, w)) = (hr, w1)" (is "?H = _") by force
  have h: "?G w w1"
  proof (cases "comm_mode s = ''SOCKET''")
    case True
    obtain gr gw where g: "get_socket 100 1000 s w = (gr, gw)" by force
    have gf: "?G w gw" using get_socket_frame[OF g] by simp
    show ?thesis
    proof (cases gr)
      case (Inl e)
      then show ?thesis using hd True g gf by simp
    next
      case (Inr sock)
      have "?G gw w1" using hd True g Inr
        by (auto simp: sock_sendall_def sock_settimeout_def sock_recv_def log_event_def
            split: option.splits prod.splits sum.splits)
      then show ?thesis using trans[OF gf] by blast
    qed
  next
    case False
    then show ?thesis using hd
      by (auto simp: stdin_write_def file_read_def log_event_def
            split: option.splits prod.splits sum.splits if_splits)
  qed
  have r: "send_command_and_get_string_result s cmd tmo w =
     (case (hr, w1) of
        (Inl e, w1) \<Rightarrow> (Inl e, w1)
      | (Inr (sock, size_info_str), w1) \<Rightarrow>
          (case struct_unpack_Q size_info_str of
             Inl e \<Rightarrow> (Inl e, w1)
           | Inr size_info \<Rightarrow> recv_chunks s sock size_info [] w1))"
    unfolding send_command_and_get_string_result_def hd ..
  show ?thesis
  proof (cases hr)
    case (Inl e)
    then show ?thesis using r assms h by simp
  next
    case (Inr p)
    obtain sock hdr where p: "p = (sock, hdr)" by force
    show ?thesis
    proof (cases "struct_unpack_Q hdr")
      case (Inl e)
      then show ?thesis using r assms h Inr p by simp
    next
      case i: (Inr n)
      have "recv_chunks s sock n [] w1 = (r, w')" using r assms Inr p i by simp
      from trans[OF h loop[OF this]] show ?thesis .
    qed
  qed
qed

section \<open>Construction fails before any spawn when no jar exists\<close>

text \<open>
  Claim C6. In every communication mode, when none of the paths that the entries of
  \<^verbatim>\<open>corenlp_jars\<close> expand to exists, the constructor raises \<^verbatim>\<open>AssertionError\<close>,
  whatever the fuel, and raises it before \<^verbatim>\<open>start_server\<close>: the world is the one it
  was given, so no worker was spawned and nothing else was done, and the object has no
  process handle.
\<close>

theorem init_requires_jars:
  assumes "\<not> (\<exists>f \<in> set (concat (map (glob_glob L) corenlp_jars)). f \<in> files w)"
  shows "\<exists>s1. init L n mode0 port cm prefix cf cd corenlp_jars w = Some (Inl AssertionError, s1, w)
              \<and> proc s1 = None"
  using assms by (simp add: init_def Let_def)

theorem init_requires_jars_witness:
  "(\<exists>s1. init lib0 7 (Some ''ssplit'') 12340 ''SOCKET'' ''/tmp/corenlp_pywrap_pipe'' None None
            [''/asdfadsf/asdfasdf''] world0 = Some (Inl AssertionError, s1, world0) \<and> proc s1 = None)
   \<and> (\<exists>s1. init lib0 7 (Some ''ssplit'') 12340 ''PIPE'' ''/tmp/corenlp_pywrap_pipe'' None None
            [''/asdfadsf/asdfasdf''] world0 = Some (Inl AssertionError, s1, world0) \<and> proc s1 = None)"
  using init_requires_jars[of lib0 "[''/asdfadsf/asdfasdf'']" world0 7 "Some ''ssplit''" 12340 "''SOCKET''"
          "''/tmp/corenlp_pywrap_pipe''" None None]
        init_requires_jars[of lib0 "[''/asdfadsf/asdfasdf'']" world0 7 "Some ''ssplit''" 12340 "''PIPE''"
          "''/tmp/corenlp_pywrap_pipe''" None None]
  by (simp add: lib0_def world0_def)

section \<open>Cleanup twice\<close>


lemma kill_proc_if_running_kills:
  "proc s = Some pid \<Longrightarrow> procs w pid = Running \<Longrightarrow>
   kill_proc_if_running s w =
     (Inr (), log_event (Kill pid 9) (w\<lparr>procs := (procs w)(pid := Exited (- 9))\<rparr>))"
  by (simp add: kill_proc_if_running_def proc_poll_def os_kill_def)




section \<open>The timeout argument in PIPE mode\<close>

lemma trace_grows_mem:
  "trace w' = evs @ trace w \<Longrightarrow> e \<in> set (trace w) \<Longrightarrow> e \<in> set (trace w')"
  by simp

lemma recv_chunks_keeps_events:
  "e \<in> set (trace w) \<Longrightarrow> e \<in> set (trace (snd (recv_chunks s sock n chunks w)))"
proof -
  obtain r w' where rc: "recv_chunks s sock n chunks w = (r, w')" by force
  from recv_chunks_frame[OF rc] obtain evs where "trace w' = evs @ trace w" by blast
  then show "e \<in> set (trace w) \<Longrightarrow> e \<in> set (trace (snd (recv_chunks s sock n chunks w)))"
    using rc by simp
qed

lemma recv_chunks_timeouts:
  "timeouts (snd (recv_chunks s sock n chunks w)) = timeouts w"
proof -
  obtain r w' where rc: "recv_chunks s sock n chunks w = (r, w')" by force
  from recv_chunks_frame[OF rc] obtain evs where
    "trace w' = evs @ trace w" "list_all (\<lambda>e. is_read e \<or> is_sleep e) evs" by blast
  then show ?thesis using rc reads_sleeps_exchange[of evs] by (simp add: timeouts_def)
qed

lemma socket_sets_timeout:
  assumes "comm_mode s = ''SOCKET''" "conn_script w = Accepted c # cs"
  shows "SetTimeout (next_sock w) tmo \<in> set (trace (snd (send_command_and_get_string_result s cmd tmo w)))"
proof -
  obtain gw where g: "get_socket 100 1000 s w = (Inr (next_sock w), gw)"
    using get_socket_accepted[OF _ assms(2), of 100 1000 s] by simp
  define w1 where "w1 = sock_settimeout (next_sock w) tmo gw"
  have t1: "SetTimeout (next_sock w) tmo \<in> set (trace w1)"
    by (simp add: w1_def sock_settimeout_def log_event_def)
  obtain r2 w2 where sd: "sock_sendall (next_sock w) (cmd @ newline) w1 = (r2, w2)" by force
  have t2: "SetTimeout (next_sock w) tmo \<in> set (trace w2)"
    using sd t1 by (auto simp: sock_sendall_def log_event_def split: option.splits)
  obtain r3 w3 where rv: "sock_recv (next_sock w) 8 w2 = (r3, w3)" by force
  have t3: "SetTimeout (next_sock w) tmo \<in> set (trace w3)"
    using rv t2 by (auto simp: sock_recv_def log_event_def split: option.splits prod.splits)
  show ?thesis
  proof (cases r2)
    case (Inl e)
    then show ?thesis using assms(1) g sd t2
      by (simp add: send_command_and_get_string_result_def w1_def[symmetric])
  next
    case i2: (Inr u)
    show ?thesis
    proof (cases r3)
      case (Inl e)
      then show ?thesis using assms(1) g sd i2 rv t3
        by (simp add: send_command_and_get_string_result_def w1_def[symmetric])
    next
      case i3: (Inr hdr)
      show ?thesis
      proof (cases "struct_unpack_Q hdr")
        case (Inl e)
        then show ?thesis using assms(1) g sd i2 rv i3 t3
          by (simp add: send_command_and_get_string_result_def w1_def[symmetric])
      next
        case (Inr n)
        then have "send_command_and_get_string_result s cmd tmo w = recv_chunks s (next_sock w) n [] w3"
          using assms(1) g sd i2 rv i3
          by (simp add: send_command_and_get_string_result_def w1_def[symmetric])
        then show ?thesis using recv_chunks_keeps_events[OF t3] by simp
      qed
    qed
  qed
qed

lemma pipe_adds_no_timeout:
  assumes "comm_mode s = ''PIPE''"
  shows "timeouts (snd (send_command_and_get_string_result s cmd tmo w)) = timeouts w"
proof -
  obtain r2 w2 where sd: "stdin_write (proc s) (cmd @ newline) w = (r2, w2)" by force
  have t2: "timeouts w2 = timeouts w"
    using sd by (auto simp: stdin_write_def log_event_def timeouts_def split: option.splits)
  obtain r3 w3 where rv: "file_read (outpipe_fp s) 8 w2 = (r3, w3)" by force
  have t3: "timeouts w3 = timeouts w"
    using rv t2 by (auto simp: file_read_def log_event_def timeouts_def split: option.splits prod.splits)
  show ?thesis
  proof (cases r2)
    case (Inl e)
    then show ?thesis using assms sd t2 by (simp add: send_command_and_get_string_result_def)
  next
    case i2: (Inr u)
    show ?thesis
    proof (cases r3)
      case (Inl e)
      then show ?thesis using assms sd i2 rv t3 by (simp add: send_command_and_get_string_result_def)
    next
      case i3: (Inr hdr)
      show ?thesis
      proof (cases "struct_unpack_Q hdr")
        case (Inl e)
        then show ?thesis using assms sd i2 rv i3 t3 by (simp add: send_command_and_get_string_result_def)
      next
        case (Inr n)
        then have "send_command_and_get_string_result s cmd tmo w = recv_chunks s 0 n [] w3"
          using assms sd i2 rv i3 by (simp add: send_command_and_get_string_result_def)
        then show ?thesis using recv_chunks_timeouts[of s 0 n "[]" w3] t3 by simp
      qed
    qed
  qed
qed

text \<open>
  Claim C8. In PIPE mode \<^verbatim>\<open>send_command_and_get_string_result\<close> does the same for any
  two timeouts: the same result and the same world afterwards, trace of writes, reads
  and sleeps included, and no timeout is set on anything. In SOCKET mode the timeout
  is set on the socket of the call as soon as it is connected.
\<close>

theorem pipe_mode_ignores_timeout:
  "(comm_mode s = ''PIPE'' \<longrightarrow>
      send_command_and_get_string_result s cmd tmo1 w = send_command_and_get_string_result s cmd tmo2 w
      \<and> timeouts (snd (send_command_and_get_string_result s cmd tmo1 w)) = timeouts w)
   \<and> (comm_mode s = ''SOCKET'' \<and> conn_script w = Accepted c # cs \<longrightarrow>
        SetTimeout (next_sock w) tmo1 \<in> set (trace (snd (send_command_and_get_string_result s cmd tmo1 w))))"
proof (intro conjI impI)
  assume "comm_mode s = ''PIPE''"
  then show "send_command_and_get_string_result s cmd tmo1 w = send_command_and_get_string_result s cmd tmo2 w"
    by (simp add: send_command_and_get_string_result_def)
next
  assume "comm_mode s = ''PIPE''"
  then show "timeouts (snd (send_command_and_get_string_result s cmd tmo1 w)) = timeouts w"
    by (rule pipe_adds_no_timeout)
next
  assume "comm_mode s = ''SOCKET'' \<and> conn_script w = Accepted c # cs"
  then show "SetTimeout (next_sock w) tmo1 \<in> set (trace (snd (send_command_and_get_string_result s cmd tmo1 w)))"
    using socket_sets_timeout[of s w c cs tmo1 cmd] by simp
qed

theorem pipe_mode_ignores_timeout_witness:
  "send_command_and_get_string_result (session0 ''PIPE'') ping_cmd 2000
       (world0\<lparr>fifo := (\<lambda>p. [Data (header 2), Data ''ok''])\<rparr>)
     = send_command_and_get_string_result (session0 ''PIPE'') ping_cmd 300000
       (world0\<lparr>fifo := (\<lambda>p. [Data (header 2), Data ''ok''])\<rparr>)
   \<and> SetTimeout 0 2000 \<in> set (trace (snd (send_command_and_get_string_result (session0 ''SOCKET'') ping_cmd 2000
       (world0\<lparr>conn_script := [serving [Data (header 2), Data ''ok'']]\<rparr>))))"
  using pipe_mode_ignores_timeout[of "session0 ''PIPE''" ping_cmd 2000
          "world0\<lparr>fifo := (\<lambda>p. [Data (header 2), Data ''ok''])\<rparr>" 300000
          "\<lparr>send_fail = None, incoming = []\<rparr>" "[]"]
        pipe_mode_ignores_timeout[of "session0 ''SOCKET''" ping_cmd 2000
          "world0\<lparr>conn_script := [serving [Data (header 2), Data ''ok'']]\<rparr>" 300000
          "\<lparr>send_fail = None, incoming = [Data (header 2), Data ''ok'']\<rparr>" "[]"]
  by (simp add: session0_def world0_def serving_def)

section \<open>A frame of declared length zero\<close>

lemma recv_chunks_zero:
  assumes "channel_of s sock w = Some ch"
  shows "\<exists>w'. recv_chunks s sock 0 [] w = (Inr (Some []), w') \<and> recvs w' = Suc (recvs w)"
proof -
  have "\<exists>w1. recv_data s sock 0 w = (Inr [], w1) \<and> recvs w1 = Suc (recvs w)"
    using assms
    by (auto simp: channel_of_def recv_data_def sock_recv_def file_read_def chan_read_def
        log_event_def recvs_def split: if_splits)
  then obtain w1 where "recv_data s sock 0 w = (Inr [], w1)" "recvs w1 = Suc (recvs w)" by blast
  then show ?thesis by (subst recv_chunks.simps) (simp add: curlen_def)
qed

lemma get_string_result_zero_socket:
  assumes "comm_mode s = ''SOCKET''" "conn_script w = Accepted c # cs" "send_fail c = None"
    "incoming c = Data (hdr @ rest) # ch" "struct_unpack_Q hdr = Inr 0"
  shows "\<exists>w'. send_command_and_get_string_result s cmd tmo w = (Inr (Some []), w') \<and> recvs w' = recvs w + 2"
proof -
  have len: "length hdr = 8" using assms(5) by (auto simp: struct_unpack_Q_def split: if_splits)
  define w3 where "w3 = snd (sock_recv (next_sock w) 8 (snd (sock_sendall (next_sock w) (cmd @ newline)
     (sock_settimeout (next_sock w) tmo (snd (get_socket 100 1000 s w))))))"
  have pre: "send_command_and_get_string_result s cmd tmo w = recv_chunks s (next_sock w) 0 [] w3"
    using assms(1,3,4,5) len
    by (simp add: send_command_and_get_string_result_def get_socket_accepted[OF _ assms(2)] sock_settimeout_def
        sock_sendall_def sock_recv_def log_event_def chan_read_def w3_def)
  have ch: "\<exists>ch'. channel_of s (next_sock w) w3 = Some ch'" using assms(1,3,4) len
    by (simp add: channel_of_def w3_def get_socket_accepted[OF _ assms(2)] sock_settimeout_def
        sock_sendall_def sock_recv_def log_event_def chan_read_def)
  have r3: "recvs w3 = Suc (recvs w)" using assms(1,3,4) len
    by (simp add: recvs_def w3_def get_socket_accepted[OF _ assms(2)] sock_settimeout_def
        sock_sendall_def sock_recv_def log_event_def chan_read_def)
  from ch obtain ch' where "channel_of s (next_sock w) w3 = Some ch'" by blast
  from recv_chunks_zero[OF this] show ?thesis using pre r3 by auto
qed

lemma get_string_result_zero_pipe:
  assumes "comm_mode s = ''PIPE''" "proc s = Some pid" "stdin_fail w = None" "outpipe_fp s = Some p"
    "fifo w p = Data (hdr @ rest) # ch" "struct_unpack_Q hdr = Inr 0"
  shows "\<exists>w'. send_command_and_get_string_result s cmd tmo w = (Inr (Some []), w') \<and> recvs w' = recvs w + 2"
proof -
  have len: "length hdr = 8" using assms(6) by (auto simp: struct_unpack_Q_def split: if_splits)
  define w3 where "w3 = snd (file_read (Some p) 8 (snd (stdin_write (Some pid) (cmd @ newline) w)))"
  have pre: "send_command_and_get_string_result s cmd tmo w = recv_chunks s 0 0 [] w3"
    using assms(1-6) len
    by (simp add: send_command_and_get_string_result_def stdin_write_def file_read_def log_event_def chan_read_def w3_def)
  have ch: "\<exists>ch'. channel_of s 0 w3 = Some ch'" using assms(1-5) len
    by (simp add: channel_of_def w3_def stdin_write_def file_read_def log_event_def chan_read_def)
  have r3: "recvs w3 = Suc (recvs w)" using assms(1-5) len
    by (simp add: recvs_def w3_def stdin_write_def file_read_def log_event_def chan_read_def)
  from ch obtain ch' where "channel_of s 0 w3 = Some ch'" by blast
  from recv_chunks_zero[OF this] show ?thesis using pre r3 by auto
qed

lemma parse_result_of_empty:
  assumes "proc s = Some pid" "procs w pid = Running"
    "send_command_and_get_string_result s cmd tmo w = (Inr (Some []), w')"
  shows "send_command_and_parse_result L k s cmd tmo True w = Some (Inr (Raw []), s, w')"
    and "json_loads L [] = None \<Longrightarrow>
         send_command_and_parse_result L k s cmd tmo False w = Some (Inr Absent, s, w')"
  using assms(3) by (simp_all add: parse_result_running[OF assms(1,2)])

text \<open>
  Claim C10. When the header declares length 0, the accumulation loop makes one read (of
  zero bytes) and yields the empty string. The whole call then makes two reads and, with
  the worker running, returns the empty string in raw mode; without raw mode, given
  that the JSON decoder rejects the empty string, it returns \<open>None\<close>. This holds in
  SOCKET mode and in PIPE mode.
\<close>

theorem zero_length_frame:
  "(channel_of s sock w = Some ch0 \<longrightarrow>
      (\<exists>w'. recv_chunks s sock 0 [] w = (Inr (Some []), w') \<and> recvs w' = recvs w + 1))
   \<and> (proc s = Some pid \<and> procs w pid = Running \<and> struct_unpack_Q hdr = Inr 0
       \<and> (comm_mode s = ''SOCKET'' \<and> conn_script w = Accepted c # cs \<and> send_fail c = None
            \<and> incoming c = Data (hdr @ rest) # ch
          \<or> comm_mode s = ''PIPE'' \<and> stdin_fail w = None \<and> outpipe_fp s = Some p
            \<and> fifo w p = Data (hdr @ rest) # ch) \<longrightarrow>
      (\<exists>w'. send_command_and_get_string_result s cmd tmo w = (Inr (Some []), w')
            \<and> recvs w' = recvs w + 2
            \<and> send_command_and_parse_result L k s cmd tmo True w = Some (Inr (Raw []), s, w')
            \<and> (json_loads L [] = None \<longrightarrow>
                 send_command_and_parse_result L k s cmd tmo False w = Some (Inr Absent, s, w'))))"
proof (intro conjI impI)
  assume "channel_of s sock w = Some ch0"
  from recv_chunks_zero[OF this]
  show "\<exists>w'. recv_chunks s sock 0 [] w = (Inr (Some []), w') \<and> recvs w' = recvs w + 1" by simp
next
  assume a: "proc s = Some pid \<and> procs w pid = Running \<and> struct_unpack_Q hdr = Inr 0
       \<and> (comm_mode s = ''SOCKET'' \<and> conn_script w = Accepted c # cs \<and> send_fail c = None
            \<and> incoming c = Data (hdr @ rest) # ch
          \<or> comm_mode s = ''PIPE'' \<and> stdin_fail w = None \<and> outpipe_fp s = Some p
            \<and> fifo w p = Data (hdr @ rest) # ch)"
  then have run: "proc s = Some pid" "procs w pid = Running" and h: "struct_unpack_Q hdr = Inr 0" by simp_all
  from a have "comm_mode s = ''SOCKET'' \<and> conn_script w = Accepted c # cs \<and> send_fail c = None
            \<and> incoming c = Data (hdr @ rest) # ch
          \<or> comm_mode s = ''PIPE'' \<and> stdin_fail w = None \<and> outpipe_fp s = Some p
            \<and> fifo w p = Data (hdr @ rest) # ch" by simp
  then have "\<exists>w'. send_command_and_get_string_result s cmd tmo w = (Inr (Some []), w') \<and> recvs w' = recvs w + 2"
  proof
    assume "comm_mode s = ''SOCKET'' \<and> conn_script w = Accepted c # cs \<and> send_fail c = None
            \<and> incoming c = Data (hdr @ rest) # ch"
    then show ?thesis using get_string_result_zero_socket[of s w c cs hdr rest ch cmd tmo] h by simp
  next
    assume "comm_mode s = ''PIPE'' \<and> stdin_fail w = None \<and> outpipe_fp s = Some p
            \<and> fifo w p = Data (hdr @ rest) # ch"
    then show ?thesis using get_string_result_zero_pipe[of s pid w p hdr rest ch cmd tmo] h run by simp
  qed
  then obtain w' where g: "send_command_and_get_string_result s cmd tmo w = (Inr (Some []), w')"
    and r: "recvs w' = recvs w + 2" by blast
  show "\<exists>w'. send_command_and_get_string_result s cmd tmo w = (Inr (Some []), w')
            \<and> recvs w' = recvs w + 2
            \<and> send_command_and_parse_result L k s cmd tmo True w = Some (Inr (Raw []), s, w')
            \<and> (json_loads L [] = None \<longrightarrow>
                 send_command_and_parse_result L k s cmd tmo False w = Some (Inr Absent, s, w'))"
    using g r parse_result_of_empty[OF run g, of L k] by simp
qed


theorem zero_length_frame_witness:
  "fst (recv_chunks (session0 ''SOCKET'') 0 0 [] (world0\<lparr>socks := [0 \<mapsto> \<lparr>send_fail = None, incoming = []\<rparr>]\<rparr>))
     = Inr (Some [])
   \<and> map_option fst (send_command_and_parse_result lib0 3 (session0 ''SOCKET'') ping_cmd 2000 True
        (world0\<lparr>conn_script := [serving [Data (header 0 @ [])]]\<rparr>)) = Some (Inr (Raw []))
   \<and> map_option fst (send_command_and_parse_result lib0 3 (session0 ''SOCKET'') ping_cmd 2000 False
        (world0\<lparr>conn_script := [serving [Data (header 0 @ [])]]\<rparr>)) = Some (Inr Absent)
   \<and> map_option fst (send_command_and_parse_result lib0 3 (session0 ''PIPE'') ping_cmd 2000 False
        (world0\<lparr>fifo := (\<lambda>p. [Data (header 0 @ ''x'')])\<rparr>)) = Some (Inr Absent)"
  using zero_length_frame[of "session0 ''SOCKET''" 0 "world0\<lparr>socks := [0 \<mapsto> \<lparr>send_fail = None, incoming = []\<rparr>]\<rparr>"
          "[]" 0 "header 0" "\<lparr>send_fail = None, incoming = []\<rparr>" "[]" "[]" "[]" "[]" ping_cmd 2000 lib0 3]
        zero_length_frame[of "session0 ''SOCKET''" 0 "world0\<lparr>conn_script := [serving [Data (header 0 @ [])]]\<rparr>"
          "[]" 0 "header 0" "\<lparr>send_fail = None, incoming = [Data (header 0 @ [])]\<rparr>" "[]" "[]" "[]" "[]" ping_cmd 2000 lib0 3]
        zero_length_frame[of "session0 ''PIPE''" 0 "world0\<lparr>fifo := (\<lambda>p. [Data (header 0 @ ''x'')])\<rparr>"
          "[]" 0 "header 0" "\<lparr>send_fail = None, incoming = []\<rparr>" "[]" "''x''" "[]" "''/tmp/p''" ping_cmd 2000 lib0 3]
  apply (simp add: session0_def world0_def serving_def unpack_header channel_of_def lib0_def pong_payload_def)
  apply (elim exE conjE)
  apply simp
  done

section \<open>What a failed call returns\<close>

lemma get_socket_numeral:
  "get_socket (numeral k) ri s w = get_socket (Suc (pred_numeral k)) ri s w"
  by (simp add: numeral_eq_Suc)

lemma get_string_result_header_fails:
  assumes "comm_mode s = ''SOCKET''" "conn_script w = Accepted c # cs" "send_fail c = None"
    "incoming c = Fail e # ch"
  shows "\<exists>w'. send_command_and_get_string_result s cmd tmo w = (Inl e, w')"
  using assms(1,3,4)
  by (simp add: send_command_and_get_string_result_def get_socket_accepted[OF _ assms(2)] sock_settimeout_def
        sock_sendall_def sock_recv_def log_event_def chan_read_def)

lemma get_string_result_short_header:
  assumes "comm_mode s = ''SOCKET''" "conn_script w = Accepted c # cs" "send_fail c = None"
    "incoming c = Data d # ch" "length d < 8"
  shows "\<exists>w'. send_command_and_get_string_result s cmd tmo w = (Inl StructError, w')"
  using assms(1,3,4,5)
  by (simp add: send_command_and_get_string_result_def get_socket_accepted[OF _ assms(2)] sock_settimeout_def
        sock_sendall_def sock_recv_def log_event_def chan_read_def struct_unpack_Q_def)

text \<open>
  A header cut short is not one of the failures the call absorbs: \<^verbatim>\<open>struct.unpack\<close>
  raises and nothing catches it.
\<close>

lemma truncated_header_escapes:
  "map_option fst (send_command_and_parse_result lib0 3 (session0 ''SOCKET'') parsedoc_cmd 300000 False
      (world0\<lparr>conn_script := [serving [Data ''abc'']]\<rparr>)) = Some (Inl StructError)"
proof -
  obtain w' where "send_command_and_get_string_result (session0 ''SOCKET'') parsedoc_cmd 300000
      (world0\<lparr>conn_script := [serving [Data ''abc'']]\<rparr>) = (Inl StructError, w')"
    using get_string_result_short_header[of "session0 ''SOCKET''" "world0\<lparr>conn_script := [serving [Data ''abc'']]\<rparr>"
        "\<lparr>send_fail = None, incoming = [Data ''abc'']\<rparr>" "[]" "''abc''" "[]" parsedoc_cmd 300000]
    by (auto simp: session0_def world0_def serving_def)
  then show ?thesis
    using parse_result_running[of "session0 ''SOCKET''" 0 "world0\<lparr>conn_script := [serving [Data ''abc'']]\<rparr>"
        lib0 3 parsedoc_cmd 300000 False]
    by (simp add: session0_def world0_def)
qed

text \<open>
  Claim C2, as stated, fails: in a regular call, with the worker running, a socket error
  that is not a timeout (here the connection is reset while the header is read) is not
  turned into \<open>None\<close>; it reaches the caller.
\<close>

theorem socket_error_escapes_parse_result:
  "map_option fst (send_command_and_parse_result lib0 3 (session0 ''SOCKET'') parsedoc_cmd 300000 False
      (world0\<lparr>conn_script := [serving [Fail SocketError]]\<rparr>)) = Some (Inl SocketError)"
proof -
  obtain w' where "send_command_and_get_string_result (session0 ''SOCKET'') parsedoc_cmd 300000
      (world0\<lparr>conn_script := [serving [Fail SocketError]]\<rparr>) = (Inl SocketError, w')"
    using get_string_result_header_fails[of "session0 ''SOCKET''" "world0\<lparr>conn_script := [serving [Fail SocketError]]\<rparr>"
        "\<lparr>send_fail = None, incoming = [Fail SocketError]\<rparr>" "[]" SocketError "[]" parsedoc_cmd 300000]
    by (auto simp: session0_def world0_def serving_def)
  then show ?thesis
    using parse_result_running[of "session0 ''SOCKET''" 0 "world0\<lparr>conn_script := [serving [Fail SocketError]]\<rparr>"
        lib0 3 parsedoc_cmd 300000 False]
    by (simp add: session0_def world0_def)
qed

text \<open>
  Claim C2, amended. With the worker running when the call starts,
  \<^verbatim>\<open>send_command_and_parse_result\<close> returns \<open>None\<close> when the exchange raises
  \<^verbatim>\<open>socket.timeout\<close>, when the payload is still incomplete at the receive cap, and
  when the payload is not valid JSON (raw mode off); the worker's entry in the process
  table and the session are as before. A socket error other than a timeout is not
  caught: it reaches the caller.
\<close>

theorem parse_result_failures:
  assumes "proc s = Some pid" "procs w pid = Running"
  shows "(send_command_and_get_string_result s cmd tmo w = (Inl SocketTimeout, w') \<longrightarrow>
            send_command_and_parse_result L k s cmd tmo raw w = Some (Inr Absent, s, w'))
       \<and> (send_command_and_get_string_result s cmd tmo w = (Inr None, w') \<longrightarrow>
            send_command_and_parse_result L k s cmd tmo raw w = Some (Inr Absent, s, w'))
       \<and> (send_command_and_get_string_result s cmd tmo w = (Inr (Some data), w')
            \<and> \<not> raw \<and> json_loads L data = None \<longrightarrow>
            send_command_and_parse_result L k s cmd tmo raw w = Some (Inr Absent, s, w'))
       \<and> (send_command_and_get_string_result s cmd tmo w = (Inl SocketError, w') \<longrightarrow>
            send_command_and_parse_result L k s cmd tmo raw w = Some (Inl SocketError, s, w'))
       \<and> procs (snd (send_command_and_get_string_result s cmd tmo w)) = procs w"
proof -
  have "procs (snd (send_command_and_get_string_result s cmd tmo w)) = procs w"
    using get_string_result_frame[of s cmd tmo w "fst (send_command_and_get_string_result s cmd tmo w)"
        "snd (send_command_and_get_string_result s cmd tmo w)"] by simp
  then show ?thesis by (simp add: parse_result_running[OF assms])
qed

theorem parse_result_failures_witness:
  "map_option fst (send_command_and_parse_result lib0 3 (session0 ''SOCKET'') parsedoc_cmd 300000 False
      (world0\<lparr>conn_script := [serving [Fail SocketTimeout]]\<rparr>)) = Some (Inr Absent)
   \<and> map_option fst (send_command_and_parse_result lib0 3 (session0 ''SOCKET'') parsedoc_cmd 300000 False
      (world0\<lparr>conn_script := [serving [Data (header 5), Data ''ab'']]\<rparr>)) = Some (Inr Absent)"
proof -
  let ?w1 = "world0\<lparr>conn_script := [serving [Fail SocketTimeout]]\<rparr>"
  let ?w2 = "world0\<lparr>conn_script := [serving [Data (header 5), Data ''ab'']]\<rparr>"
  let ?s = "session0 ''SOCKET''"
  obtain w1' where g1: "send_command_and_get_string_result ?s parsedoc_cmd 300000 ?w1 = (Inl SocketTimeout, w1')"
    using get_string_result_header_fails[of ?s ?w1 "\<lparr>send_fail = None, incoming = [Fail SocketTimeout]\<rparr>" "[]"
        SocketTimeout "[]" parsedoc_cmd 300000]
    by (auto simp: session0_def world0_def serving_def)
  obtain w2' where g2: "send_command_and_get_string_result ?s parsedoc_cmd 300000 ?w2 = (Inr None, w2')"
    using get_string_result_socket_starved[of ?s ?w2 "\<lparr>send_fail = None, incoming = [Data (header 5), Data ''ab'']\<rparr>" "[]"
        "header 5" "[Data ''ab'']" 5 parsedoc_cmd 300000]
    by (auto simp: session0_def world0_def serving_def unpack_header delivers_def)
  have r: "proc ?s = Some 0" "procs ?w1 0 = Running" "procs ?w2 0 = Running"
    by (simp_all add: session0_def world0_def)
  show ?thesis
    using parse_result_failures[OF r(1,2), of parsedoc_cmd 300000 w1' lib0 3 False "[]"]
      parse_result_failures[OF r(1,3), of parsedoc_cmd 300000 w2' lib0 3 False "[]"] g1 g2
    by simp
qed

section \<open>The socket of a call\<close>






section \<open>Lazy restart\<close>

lemma set_annotators_frame:
  "set_annotators s w = (r, w1) \<Longrightarrow>
     procs w1 = procs w \<and> next_pid w1 = next_pid w \<and> files w1 = files w \<and> trace w1 = trace w
     \<and> socks w1 = socks w \<and> conn_script w1 = conn_script w \<and> next_sock w1 = next_sock w
     \<and> fifo w1 = fifo w \<and> stdin_fail w1 = stdin_fail w"
  by (auto simp: set_annotators_def split: if_splits option.splits)

lemma command_world:
  "snd (command L s w) = w \<or> snd (command L s w) = snd (set_annotators s w)"
  by (simp add: command_def split: sum.splits prod.splits)

lemma command_frame:
  "command L s w = (r, w1) \<Longrightarrow>
     procs w1 = procs w \<and> next_pid w1 = next_pid w \<and> files w1 = files w \<and> trace w1 = trace w
     \<and> socks w1 = socks w \<and> conn_script w1 = conn_script w \<and> next_sock w1 = next_sock w
     \<and> fifo w1 = fifo w \<and> stdin_fail w1 = stdin_fail w"
  using command_world[of L s w]
    set_annotators_frame[of s w "fst (set_annotators s w)" "snd (set_annotators s w)"]
  by auto

lemma kill_proc_if_running_frame:
  "kill_proc_if_running s w = (r, w1) \<Longrightarrow>
     next_pid w1 = next_pid w \<and> files w1 = files w \<and> dicts w1 = dicts w"
  by (auto simp: kill_proc_if_running_def os_kill_def log_event_def split: option.splits pstatus.splits)

lemma make_pipe_frame:
  "make_pipe s w = (r, w1) \<Longrightarrow> next_pid w1 = next_pid w \<and> dicts w1 = dicts w \<and> procs w1 = procs w"
  by (auto simp: make_pipe_def os_mkfifo_def log_event_def split: if_splits option.splits)

lemma open_channel_frame:
  "open_channel s w = (r, s1, w1) \<Longrightarrow>
     next_pid w1 = next_pid w \<and> dicts w1 = dicts w \<and> procs w1 = procs w \<and> same_config s s1
     \<and> proc s1 = proc s \<and> set (trace w) \<subseteq> set (trace w1)"
proof -
  assume a: "open_channel s w = (r, s1, w1)"
  obtain gr gw where g: "get_socket 100 1000 s w = (gr, gw)" by force
  from get_socket_frame[OF g] obtain evs where
    gf: "next_pid gw = next_pid w" "dicts gw = dicts w" "procs gw = procs w" "trace gw = evs @ trace w"
    by blast
  show ?thesis
  proof (cases "comm_mode s = ''SOCKET''")
    case True
    then show ?thesis using a g gf
      by (cases gr) (auto simp: open_channel_def sock_close_def log_event_def same_config_def)
  next
    case False
    then show ?thesis using a
      by (auto simp: open_channel_def file_open_def log_event_def same_config_def
          split: if_splits option.splits)
  qed
qed

text \<open>A launch that succeeds has spawned a new worker, which runs, and holds its handle.\<close>

lemma launch_spawns:
  assumes "launch L s w = (Inr u, s1, w1)"
  shows "next_pid w1 = Suc (next_pid w) \<and> proc s1 = Some (next_pid w) \<and> procs w1 (next_pid w) = Running
     \<and> (\<exists>cmd. Spawn cmd (next_pid w) \<in> set (trace w1))"
proof -
  obtain r1 wa where k: "kill_proc_if_running s w = (r1, wa)" by force
  obtain r2 wb where m: "make_pipe s wa = (r2, wb)" by force
  obtain r3 wc where c: "command L s wb = (r3, wc)" by force
  from assms k m c obtain cmd where r: "r1 = Inr ()" "r2 = Inr ()" "r3 = Inr cmd"
    by (cases r1; cases r2; cases r3) (auto simp: launch_def)
  obtain pid wd where p: "popen cmd wc = (pid, wd)" by force
  have oc: "open_channel (s\<lparr>proc := Some pid\<rparr>) (time_sleep 1000 wd) = (Inr u, s1, w1)"
    using assms k m c r p by (simp add: launch_def)
  have n: "next_pid wc = next_pid w"
    using kill_proc_if_running_frame[OF k] make_pipe_frame[OF m] command_frame[OF c] by simp
  have pd: "pid = next_pid w" "next_pid wd = Suc (next_pid w)" "procs wd (next_pid w) = Running"
    "Spawn cmd (next_pid w) \<in> set (trace wd)"
    using p n by (auto simp: popen_def log_event_def)
  from open_channel_frame[OF oc] pd show ?thesis
    by (auto simp: time_sleep_def log_event_def)
qed

lemma parse_result_running_frame:
  assumes "proc s = Some pid" "procs w pid = Running"
  shows "\<exists>r w'. send_command_and_parse_result L k s cmd tmo raw w = Some (r, s, w')
            \<and> procs w' = procs w \<and> next_pid w' = next_pid w \<and> dicts w' = dicts w"
proof -
  obtain gr gw where g: "send_command_and_get_string_result s cmd tmo w = (gr, gw)" by force
  from get_string_result_frame[OF g]
  have f: "procs gw = procs w" "next_pid gw = next_pid w" "dicts gw = dicts w" by simp_all
  have "\<exists>r. send_command_and_parse_result L k s cmd tmo raw w = Some (r, s, gw)"
    using g by (simp add: parse_result_running[OF assms] split: sum.splits option.splits)
  then show ?thesis using f by blast
qed

lemma start_server_success:
  assumes "start_server L k s w = Some (Inr u, s', w')"
  shows "\<exists>s1 w1. launch L s w = (Inr (), s1, w1) \<and> next_pid w1 = Suc (next_pid w)
            \<and> proc s1 = Some (next_pid w) \<and> procs w1 (next_pid w) = Running
            \<and> ping_loop L k s1 w1 = Some (Inr u, s', w')"
proof -
  obtain r1 s1 w1 where l: "launch L s w = (r1, s1, w1)" by (cases "launch L s w") auto
  from assms l have r: "r1 = Inr ()" and p: "ping_loop L k s1 w1 = Some (Inr u, s', w')"
    by (cases r1; simp add: start_server.simps)+
  from launch_spawns[of L s w "()" s1 w1] l r p show ?thesis by simp
qed

text \<open>
  Claim C5. \<^verbatim>\<open>ensure_proc_is_running\<close> is \<^verbatim>\<open>start_server\<close> when the worker was never
  started or is seen to have exited, and does nothing at all when the worker runs. A
  \<^verbatim>\<open>start_server\<close> that returns has spawned a new worker and has gone through the
  startup loop with it. A call made while the worker runs returns (it needs no fuel)
  and spawns and kills nothing: a worker is replaced only by the check that opens a
  call.
\<close>

theorem ensure_proc_is_running_lazy:
  "(proc s = None \<or> (\<exists>pid c. proc s = Some pid \<and> procs w pid = Exited c) \<longrightarrow>
      ensure_proc_is_running L k s w = start_server L k s w)
   \<and> (\<forall>pid. proc s = Some pid \<and> procs w pid = Running \<longrightarrow>
        ensure_proc_is_running L k s w = Some (Inr (), s, w)
        \<and> (\<exists>r w'. send_command_and_parse_result L k s cmd tmo raw w = Some (r, s, w')
               \<and> procs w' = procs w \<and> next_pid w' = next_pid w))
   \<and> (\<forall>u s' w'. start_server L k s w = Some (Inr u, s', w') \<longrightarrow>
        (\<exists>s1 w1. launch L s w = (Inr (), s1, w1) \<and> next_pid w1 = Suc (next_pid w)
            \<and> proc s1 = Some (next_pid w) \<and> procs w1 (next_pid w) = Running
            \<and> ping_loop L k s1 w1 = Some (Inr u, s', w')))"
proof (intro conjI impI allI)
  assume "proc s = None \<or> (\<exists>pid c. proc s = Some pid \<and> procs w pid = Exited c)"
  then show "ensure_proc_is_running L k s w = start_server L k s w" by (rule ensure_restarts)
next
  fix pid assume "proc s = Some pid \<and> procs w pid = Running"
  then show "ensure_proc_is_running L k s w = Some (Inr (), s, w)" using ensure_running by blast
next
  fix pid assume a: "proc s = Some pid \<and> procs w pid = Running"
  from a have "proc s = Some pid" "procs w pid = Running" by simp_all
  from parse_result_running_frame[OF this, of L k cmd tmo raw]
  show "\<exists>r w'. send_command_and_parse_result L k s cmd tmo raw w = Some (r, s, w')
               \<and> procs w' = procs w \<and> next_pid w' = next_pid w" by blast
next
  fix u s' w' assume "start_server L k s w = Some (Inr u, s', w')"
  from start_server_success[OF this]
  show "\<exists>s1 w1. launch L s w = (Inr (), s1, w1) \<and> next_pid w1 = Suc (next_pid w)
            \<and> proc s1 = Some (next_pid w) \<and> procs w1 (next_pid w) = Running
            \<and> ping_loop L k s1 w1 = Some (Inr u, s', w')" .
qed

section \<open>A handshake that succeeds\<close>

lemma get_string_result_socket_complete_world:
  assumes "comm_mode s = ''SOCKET''" "conn_script w = Accepted c # cs" "send_fail c = None"
    "incoming c = Data hdr # Data payload # ch" "struct_unpack_Q hdr = Inr (length payload)"
    "payload \<noteq> []"
  shows "\<exists>w'. send_command_and_get_string_result s cmd tmo w = (Inr (Some payload), w')
           \<and> conn_script w' = cs \<and> procs w' = procs w \<and> dicts w' = dicts w \<and> next_pid w' = next_pid w
           \<and> sleeps w' = sleeps w"
proof -
  have len: "length hdr = 8" using assms(5) by (auto simp: struct_unpack_Q_def split: if_splits)
  define w3 where "w3 = snd (sock_recv (next_sock w) 8 (snd (sock_sendall (next_sock w) (cmd @ newline)
     (sock_settimeout (next_sock w) tmo (snd (get_socket 100 1000 s w))))))"
  have pre: "send_command_and_get_string_result s cmd tmo w = recv_chunks s (next_sock w) (length payload) [] w3"
    using assms(1,3,4,5) len
    by (simp add: send_command_and_get_string_result_def get_socket_accepted[OF _ assms(2)] sock_settimeout_def
        sock_sendall_def sock_recv_def log_event_def chan_read_def w3_def)
  have w3: "conn_script w3 = cs" "procs w3 = procs w" "dicts w3 = dicts w" "next_pid w3 = next_pid w"
    "sleeps w3 = sleeps w"
    using assms(1,3,4) len
    by (simp_all add: w3_def get_socket_accepted[OF _ assms(2)] sock_settimeout_def
        sock_sendall_def sock_recv_def log_event_def chan_read_def sleeps_def)
  have sk: "socks w3 (next_sock w) = Some (c\<lparr>incoming := Data payload # ch\<rparr>)" using assms(1,3,4) len
    by (simp add: w3_def get_socket_accepted[OF _ assms(2)] sock_settimeout_def
        sock_sendall_def sock_recv_def log_event_def chan_read_def)
  have "fst (recv_data s (next_sock w) (length payload) w3) = Inr payload"
    using assms(1,6) sk by (simp add: recv_data_def sock_recv_def chan_read_def)
  then obtain w4 where rd: "recv_data s (next_sock w) (length payload) w3 = (Inr payload, w4)"
    by (cases "recv_data s (next_sock w) (length payload) w3") simp
  then have rc: "recv_chunks s (next_sock w) (length payload) [] w3 = (Inr (Some payload), w4)"
    by (subst recv_chunks.simps) (simp add: curlen_def)
  from recv_data_frame[OF rd] obtain evs where
    f: "conn_script w4 = conn_script w3" "procs w4 = procs w3" "dicts w4 = dicts w3" "next_pid w4 = next_pid w3"
    and t: "trace w4 = evs @ trace w3" "list_all is_read evs" by blast
  have "filter is_sleep evs = []" using t(2) reads_sleeps_exchange[of evs]
    by (induction evs) (auto elim: is_read.elims)
  then have "sleeps w4 = sleeps w3" using t(1) by (simp add: sleeps_def)
  then show ?thesis using pre rc f w3 by simp
qed

lemma ping_answered:
  assumes "proc s = Some pid" "procs w pid = Running"
    "comm_mode s = ''SOCKET''" "conn_script w = Accepted c # cs" "send_fail c = None"
    "incoming c = Data hdr # Data payload # ch" "struct_unpack_Q hdr = Inr (length payload)"
    "payload \<noteq> []" "json_loads L payload = Some j"
  shows "\<exists>w'. send_command_and_parse_result L k s cmd tmo False w = Some (Inr (to_response j), s, w')
           \<and> conn_script w' = cs \<and> procs w' = procs w \<and> dicts w' = dicts w \<and> next_pid w' = next_pid w
           \<and> sleeps w' = sleeps w"
proof -
  from get_string_result_socket_complete_world[OF assms(3-8), of cmd tmo]
  obtain w' where g: "send_command_and_get_string_result s cmd tmo w = (Inr (Some payload), w')"
    and f: "conn_script w' = cs" "procs w' = procs w" "dicts w' = dicts w" "next_pid w' = next_pid w"
       "sleeps w' = sleeps w" by blast
  have "send_command_and_parse_result L k s cmd tmo False w = Some (Inr (to_response j), s, w')"
    using g assms(9) by (simp add: parse_result_running[OF assms(1,2)])
  then show ?thesis using f by simp
qed

lemma ping_unreadable:
  assumes "proc s = Some pid" "procs w pid = Running"
    "comm_mode s = ''SOCKET''" "conn_script w = Accepted c # cs" "send_fail c = None"
    "incoming c = Data hdr # Data payload # ch" "struct_unpack_Q hdr = Inr (length payload)"
    "payload \<noteq> []" "json_loads L payload = None"
  shows "\<exists>w'. send_command_and_parse_result L k s cmd tmo False w = Some (Inr Absent, s, w')
           \<and> conn_script w' = cs \<and> procs w' = procs w \<and> dicts w' = dicts w \<and> next_pid w' = next_pid w
           \<and> sleeps w' = sleeps w"
proof -
  from get_string_result_socket_complete_world[OF assms(3-8), of cmd tmo]
  obtain w' where g: "send_command_and_get_string_result s cmd tmo w = (Inr (Some payload), w')"
    and f: "conn_script w' = cs" "procs w' = procs w" "dicts w' = dicts w" "next_pid w' = next_pid w"
       "sleeps w' = sleeps w" by blast
  have "send_command_and_parse_result L k s cmd tmo False w = Some (Inr Absent, s, w')"
    using g assms(9) by (simp add: parse_result_running[OF assms(1,2)])
  then show ?thesis using f by simp
qed

lemma ping_broken:
  assumes "proc s = Some pid" "procs w pid = Running"
    "comm_mode s = ''SOCKET''" "conn_script w = Accepted c # cs" "send_fail c = None"
    "incoming c = Fail e # ch" "e \<noteq> SocketTimeout"
  shows "\<exists>w'. send_command_and_parse_result L k s cmd tmo False w = Some (Inl e, s, w')
           \<and> conn_script w' = cs \<and> procs w' = procs w \<and> dicts w' = dicts w \<and> next_pid w' = next_pid w
           \<and> sleeps w' = sleeps w"
proof -
  have "\<exists>w'. send_command_and_get_string_result s cmd tmo w = (Inl e, w')
           \<and> conn_script w' = cs \<and> procs w' = procs w \<and> dicts w' = dicts w \<and> next_pid w' = next_pid w
           \<and> sleeps w' = sleeps w"
    using assms(3,5,6)
    by (simp add: send_command_and_get_string_result_def get_socket_accepted[OF _ assms(4)] sock_settimeout_def
        sock_sendall_def sock_recv_def log_event_def chan_read_def sleeps_def)
  then obtain w' where g: "send_command_and_get_string_result s cmd tmo w = (Inl e, w')"
    and f: "conn_script w' = cs" "procs w' = procs w" "dicts w' = dicts w" "next_pid w' = next_pid w"
       "sleeps w' = sleeps w" by blast
  have "send_command_and_parse_result L k s cmd tmo False w = Some (Inl e, s, w')"
    using g assms(7) by (simp add: parse_result_running[OF assms(1,2)])
  then show ?thesis using f by simp
qed



lemma command_sample:
  "\<exists>cmd. command lib0 (fresh_session ''SOCKET'') w = (Inr cmd, w)"
  by (simp add: command_def set_annotators_def MODES_def more_config_of_def comm_info_of_def
      fresh_session_def session0_def lib0_def quote_def)

lemma launch_sample:
  "\<exists>w1. launch lib0 (fresh_session ''SOCKET'') boot_world
           = (Inr (), (fresh_session ''SOCKET'')\<lparr>proc := Some 1\<rparr>, w1)
        \<and> procs w1 1 = Running
        \<and> conn_script w1 = [serving [Data (header 6), Data pong_payload]]
        \<and> next_pid w1 = 2"
proof -
  let ?s = "fresh_session ''SOCKET''"
  have k: "kill_proc_if_running ?s boot_world = (Inr (), boot_world)"
    by (simp add: kill_proc_if_running_def fresh_session_def)
  have m: "make_pipe ?s boot_world = (Inr (), boot_world)"
    by (simp add: make_pipe_def fresh_session_def session0_def)
  obtain cmd where c: "command lib0 ?s boot_world = (Inr cmd, boot_world)"
    using command_sample by blast
  obtain w3 where p: "popen cmd boot_world = (1, w3)"
    by (simp add: popen_def boot_world_def world0_def)
  define w4 where "w4 = time_sleep 1000 w3"
  have w3: "w3 = snd (popen cmd boot_world)" using p by simp
  have cs: "conn_script w4 = Accepted \<lparr>send_fail = None, incoming = []\<rparr>
                # [serving [Data (header 6), Data pong_payload]]"
    by (simp add: w4_def w3 popen_def time_sleep_def log_event_def boot_world_def world0_def serving_def)
  have w4: "procs w4 1 = Running" "next_pid w4 = 2"
    by (simp_all add: w4_def w3 popen_def time_sleep_def log_event_def boot_world_def world0_def)
  have sm: "comm_mode (?s\<lparr>proc := Some 1\<rparr>) = ''SOCKET''" by (simp add: fresh_session_def session0_def)
  have oc: "open_channel (?s\<lparr>proc := Some 1\<rparr>) w4 =
      (Inr (), ?s\<lparr>proc := Some 1\<rparr>,
       sock_close (next_sock w4) (log_event (Connect (next_sock w4))
         (w4\<lparr>conn_script := [serving [Data (header 6), Data pong_payload]],
             socks := (socks w4)(next_sock w4 \<mapsto> \<lparr>send_fail = None, incoming = []\<rparr>),
             next_sock := Suc (next_sock w4)\<rparr>)))"
    using sm by (simp add: open_channel_def get_socket_accepted[OF _ cs])
  have "launch lib0 ?s boot_world = open_channel (?s\<lparr>proc := Some 1\<rparr>) w4"
    using k m c p by (simp add: launch_def w4_def)
  then show ?thesis using oc w4 by (simp add: sock_close_def log_event_def)
qed

lemma ping_loop_PONG:
  assumes "send_command_and_parse_result L n s ping_cmd 2000 False w = Some (Inr ret, s1, w1)" "is_PONG ret"
  shows "ping_loop L (Suc n) s w = Some (Inr (), s1, w1)"
  using assms by (auto simp: ping_loop.simps is_PONG_def)

lemma start_server_sample:
  "\<exists>s' w'. start_server lib0 (Suc k) (fresh_session ''SOCKET'') boot_world = Some (Inr (), s', w')"
proof -
  from launch_sample obtain w1 where
    l: "launch lib0 (fresh_session ''SOCKET'') boot_world
           = (Inr (), (fresh_session ''SOCKET'')\<lparr>proc := Some 1\<rparr>, w1)"
    and w1: "procs w1 1 = Running" "conn_script w1 = [serving [Data (header 6), Data pong_payload]]" by blast
  let ?s1 = "(fresh_session ''SOCKET'')\<lparr>proc := Some 1\<rparr>"
  have s1: "proc ?s1 = Some 1" "comm_mode ?s1 = ''SOCKET''" by (simp_all add: fresh_session_def session0_def)
  have cs: "conn_script w1 = Accepted \<lparr>send_fail = None, incoming = [Data (header 6), Data pong_payload]\<rparr> # []"
    using w1(2) by (simp add: serving_def)
  have p: "length pong_payload = 6" "pong_payload \<noteq> []" by (simp_all add: pong_payload_def)
  have h: "struct_unpack_Q (header 6) = Inr (length pong_payload)" using unpack_header[of 6] p by simp
  have j: "json_loads lib0 pong_payload = Some (JStr ''PONG'')" by (simp add: lib0_def)
  from ping_answered[OF s1(1) w1(1) s1(2) cs _ _ h p(2) j, of "[]" k ping_cmd 2000]
  obtain w' where pp: "send_command_and_parse_result lib0 k ?s1 ping_cmd 2000 False w1
      = Some (Inr (Decoded (JStr ''PONG'')), ?s1, w')" by (auto simp: to_response_def)
  have ip: "is_PONG (Decoded (JStr ''PONG''))" by (simp add: is_PONG_def)
  have "ping_loop lib0 (Suc k) ?s1 w1 = Some (Inr (), ?s1, w')"
    by (rule ping_loop_PONG[OF pp ip])
  then show ?thesis using l by (simp add: start_server.simps)
qed

theorem ensure_proc_is_running_lazy_witness:
  "ensure_proc_is_running lib0 3 (fresh_session ''SOCKET'') boot_world
     = start_server lib0 3 (fresh_session ''SOCKET'') boot_world
   \<and> ensure_proc_is_running lib0 3 (session0 ''SOCKET'') world0 = Some (Inr (), session0 ''SOCKET'', world0)
   \<and> (\<exists>s1 w1. launch lib0 (fresh_session ''SOCKET'') boot_world = (Inr (), s1, w1) \<and> next_pid w1 = 2)"
proof -
  obtain s' w' where st: "start_server lib0 3 (fresh_session ''SOCKET'') boot_world = Some (Inr (), s', w')"
    using start_server_sample[of 2] by (auto simp: numeral_3_eq_3)
  have a: "proc (fresh_session ''SOCKET'') = None" by (simp add: fresh_session_def)
  have b: "proc (session0 ''SOCKET'') = Some 0 \<and> procs world0 0 = Running"
    by (simp add: session0_def world0_def)
  have n: "next_pid boot_world = 1" by (simp add: boot_world_def world0_def)
  show ?thesis
    using ensure_proc_is_running_lazy[of "fresh_session ''SOCKET''" boot_world lib0 3 ping_cmd 2000 False]
      ensure_proc_is_running_lazy[of "session0 ''SOCKET''" world0 lib0 3 ping_cmd 2000 False] st a b n
    by (auto simp: numeral_2_eq_2)
qed

section \<open>The startup loop\<close>

lemma ping_loop_fatal:
  assumes "send_command_and_parse_result L n s ping_cmd 2000 False w = Some (Inr ret, s1, w1)"
    "ret \<noteq> Absent" "\<not> is_PONG ret"
  shows "ping_loop L (Suc n) s w = Some (Inl (if is_text ret then AssertionError else TypeError), s1, w1)"
  using assms by (simp add: ping_loop.simps)

lemma ping_loop_Absent:
  assumes "send_command_and_parse_result L n s ping_cmd 2000 False w = Some (Inr Absent, s1, w1)"
  shows "ping_loop L (Suc n) s w = ping_loop L n s1 w1"
  using assms by (simp add: ping_loop.simps)

lemma ping_loop_socket_error:
  assumes "send_command_and_parse_result L n s ping_cmd 2000 False w = Some (Inl e, s1, w1)"
    "is_socket_error e"
  shows "ping_loop L (Suc n) s w = ping_loop L n s1 (time_sleep 1000 w1)"
  using assms by (simp add: ping_loop.simps)

lemma ping_loop_other_error:
  assumes "send_command_and_parse_result L n s ping_cmd 2000 False w = Some (Inl e, s1, w1)"
    "\<not> is_socket_error e"
  shows "ping_loop L (Suc n) s w = Some (Inl e, s1, w1)"
  using assms by (simp add: ping_loop.simps)

lemma ping_loop_success_is_PONG:
  "ping_loop L n s w = Some (Inr u, s', w') \<Longrightarrow>
   \<exists>m s0 w0 ret. send_command_and_parse_result L m s0 ping_cmd 2000 False w0 = Some (Inr ret, s', w')
                \<and> is_PONG ret"
proof (induction n arbitrary: s w)
  case 0
  then show ?case by (simp add: ping_loop.simps)
next
  case (Suc n)
  show ?case
  proof (cases "send_command_and_parse_result L n s ping_cmd 2000 False w")
    case None
    then show ?thesis using Suc.prems by (simp add: ping_loop.simps)
  next
    case (Some res)
    obtain r s1 w1 where res: "res = (r, s1, w1)" by (cases res) auto
    show ?thesis
    proof (cases r)
      case (Inl e)
      note p = Some[unfolded res Inl]
      show ?thesis
      proof (cases "is_socket_error e")
        case True
        from ping_loop_socket_error[OF p True] Suc.prems Suc.IH show ?thesis by simp
      next
        case False
        from ping_loop_other_error[OF p False] Suc.prems show ?thesis by simp
      qed
    next
      case (Inr ret)
      note p = Some[unfolded res Inr]
      show ?thesis
      proof (cases "ret = Absent")
        case True
        from ping_loop_Absent[OF p[unfolded True]] Suc.prems Suc.IH show ?thesis by simp
      next
        case False
        show ?thesis
        proof (cases "is_PONG ret")
          case True
          from ping_loop_PONG[OF p True] Suc.prems have "s' = s1" "w' = w1" by simp_all
          then show ?thesis using p True by blast
        next
          case np: False
          from ping_loop_fatal[OF p False np] Suc.prems show ?thesis by simp
        qed
      qed
    qed
  qed
qed

text \<open>Any number of connections broken by a socket error, then the answer.\<close>

lemma ping_loop_retries:
  assumes "proc s = Some pid" "comm_mode s = ''SOCKET''"
    "struct_unpack_Q hdr = Inr (length payload)" "payload \<noteq> []"
    "json_loads L payload = Some (JStr ''PONG'')"
  shows "procs w pid = Running \<Longrightarrow>
     conn_script w = replicate k (serving [Fail SocketError]) @ [serving [Data hdr, Data payload]] \<Longrightarrow>
     \<exists>w'. ping_loop L (Suc k) s w = Some (Inr (), s, w')
          \<and> sleeps w' = replicate k (Sleep 1000) @ sleeps w"
proof (induction k arbitrary: w)
  case 0
  then have cs: "conn_script w = Accepted \<lparr>send_fail = None, incoming = [Data hdr, Data payload]\<rparr> # []"
    by (simp add: serving_def)
  from ping_answered[OF assms(1) 0(1) assms(2) cs _ _ assms(3,4,5), of "[]" 0 ping_cmd 2000]
  obtain w' where pp: "send_command_and_parse_result L 0 s ping_cmd 2000 False w
      = Some (Inr (Decoded (JStr ''PONG'')), s, w')" and sl: "sleeps w' = sleeps w"
    by (auto simp: to_response_def)
  have ip: "is_PONG (Decoded (JStr ''PONG''))" by (simp add: is_PONG_def)
  show ?case using ping_loop_PONG[OF pp ip] sl by simp
next
  case (Suc k)
  have cs: "conn_script w = Accepted \<lparr>send_fail = None, incoming = [Fail SocketError]\<rparr>
      # (replicate k (serving [Fail SocketError]) @ [serving [Data hdr, Data payload]])"
    using Suc.prems(2) by (simp add: serving_def)
  from ping_broken[OF assms(1) Suc.prems(1) assms(2) cs, of SocketError "[]" L "Suc k" ping_cmd 2000]
  obtain w1 where pp: "send_command_and_parse_result L (Suc k) s ping_cmd 2000 False w
      = Some (Inl SocketError, s, w1)"
    and f: "conn_script w1 = replicate k (serving [Fail SocketError]) @ [serving [Data hdr, Data payload]]"
      "procs w1 = procs w" "sleeps w1 = sleeps w" by auto
  have se: "is_socket_error SocketError" by (simp add: is_socket_error_def)
  have r1: "procs (time_sleep 1000 w1) pid = Running" using f(2) Suc.prems(1)
    by (simp add: time_sleep_def log_event_def)
  have r2: "conn_script (time_sleep 1000 w1) = replicate k (serving [Fail SocketError]) @ [serving [Data hdr, Data payload]]"
    using f(1) by (simp add: time_sleep_def log_event_def)
  from Suc.IH[OF r1 r2] obtain w' where
    pl: "ping_loop L (Suc k) s (time_sleep 1000 w1) = Some (Inr (), s, w')"
    and sl: "sleeps w' = replicate k (Sleep 1000) @ sleeps (time_sleep 1000 w1)" by blast
  have "sleeps (time_sleep 1000 w1) = Sleep 1000 # sleeps w" using f(3) by (simp add: sleep_facts)
  then have "sleeps w' = replicate (Suc k) (Sleep 1000) @ sleeps w"
    using sl by (simp add: replicate_app_Cons_same)
  then show ?case using ping_loop_socket_error[OF pp se] pl by simp
qed

text \<open>
  Claim C4, as stated, fails: the first ping is answered, completely, with the payload
  \<open>oops\<close>, which is not \<open>PONG\<close>; the handshake does not fail. The reply does not
  decode, the call gives \<open>None\<close>, the loop goes round again, and the second ping
  completes the handshake.
\<close>

theorem undecodable_ping_reply_is_retried:
  "map_option fst (ping_loop lib0 2 (session0 ''SOCKET'')
      (world0\<lparr>conn_script := [serving [Data (header 4), Data ''oops''],
                               serving [Data (header 6), Data pong_payload]]\<rparr>)) = Some (Inr ())"
proof -
  let ?s = "session0 ''SOCKET''"
  let ?w = "world0\<lparr>conn_script := [serving [Data (header 4), Data ''oops''],
                               serving [Data (header 6), Data pong_payload]]\<rparr>"
  have s: "proc ?s = Some 0" "comm_mode ?s = ''SOCKET''" by (simp_all add: session0_def)
  have r: "procs ?w 0 = Running" by (simp add: world0_def)
  have cs: "conn_script ?w = Accepted \<lparr>send_fail = None, incoming = [Data (header 4), Data ''oops'']\<rparr>
      # [serving [Data (header 6), Data pong_payload]]" by (simp add: world0_def serving_def)
  have h4: "struct_unpack_Q (header 4) = Inr (length ''oops'')" using unpack_header[of 4] by simp
  have j4: "json_loads lib0 ''oops'' = None" by (simp add: lib0_def pong_payload_def)
  from ping_unreadable[OF s(1) r s(2) cs _ _ h4 _ j4, of "[]" 1 ping_cmd 2000]
  obtain w1 where p1: "send_command_and_parse_result lib0 1 ?s ping_cmd 2000 False ?w = Some (Inr Absent, ?s, w1)"
    and f: "conn_script w1 = [serving [Data (header 6), Data pong_payload]]" "procs w1 = procs ?w" by auto
  have r1: "procs w1 0 = Running" using f(2) r by simp
  have cs1: "conn_script w1 = Accepted \<lparr>send_fail = None, incoming = [Data (header 6), Data pong_payload]\<rparr> # []"
    using f(1) by (simp add: serving_def)
  have p: "length pong_payload = 6" "pong_payload \<noteq> []" by (simp_all add: pong_payload_def)
  have h6: "struct_unpack_Q (header 6) = Inr (length pong_payload)" using unpack_header[of 6] p by simp
  have j6: "json_loads lib0 pong_payload = Some (JStr ''PONG'')" by (simp add: lib0_def)
  from ping_answered[OF s(1) r1 s(2) cs1 _ _ h6 p(2) j6, of "[]" 0 ping_cmd 2000]
  obtain w2 where p2: "send_command_and_parse_result lib0 0 ?s ping_cmd 2000 False w1
      = Some (Inr (Decoded (JStr ''PONG'')), ?s, w2)" by (auto simp: to_response_def)
  have ip: "is_PONG (Decoded (JStr ''PONG''))" by (simp add: is_PONG_def)
  have "ping_loop lib0 2 ?s ?w = ping_loop lib0 1 ?s w1"
    using ping_loop_Absent[OF p1] by (simp add: numeral_2_eq_2)
  also have "\<dots> = Some (Inr (), ?s, w2)" using ping_loop_PONG[OF p2 ip] by simp
  finally show ?thesis by simp
qed

text \<open>
  Claim C4, amended. In the startup loop a ping whose reply decodes to a value that is
  neither \<open>None\<close> nor \<open>PONG\<close> ends the handshake with an exception
  (\<^verbatim>\<open>AssertionError\<close>, or \<^verbatim>\<open>TypeError\<close> when the value is not a string) in the state
  that ping left: it is not retried. A reply that decodes to \<open>PONG\<close> completes the
  handshake, and the handshake completes in no other way. A ping that gives \<open>None\<close> (a
  timeout, an incomplete or undecodable payload, JSON \<^verbatim>\<open>null\<close>) is retried at once; a
  ping that raises a socket error is retried after a sleep of one second. The number of
  retries has no bound: for every \<open>k\<close>, after \<open>k\<close> connections broken by a socket error
  the loop has slept \<open>k\<close> times and completes on the answer that follows.
\<close>

theorem ping_loop_outcomes:
  "(send_command_and_parse_result L n s ping_cmd 2000 False w = Some (Inr ret, s1, w1)
      \<and> ret \<noteq> Absent \<and> \<not> is_PONG ret \<longrightarrow>
      (\<exists>e. ping_loop L (Suc n) s w = Some (Inl e, s1, w1) \<and> (e = AssertionError \<or> e = TypeError)))
   \<and> (send_command_and_parse_result L n s ping_cmd 2000 False w = Some (Inr ret, s1, w1)
      \<and> is_PONG ret \<longrightarrow> ping_loop L (Suc n) s w = Some (Inr (), s1, w1))
   \<and> (send_command_and_parse_result L n s ping_cmd 2000 False w = Some (Inr Absent, s1, w1) \<longrightarrow>
        ping_loop L (Suc n) s w = ping_loop L n s1 w1)
   \<and> (send_command_and_parse_result L n s ping_cmd 2000 False w = Some (Inl e, s1, w1)
      \<and> is_socket_error e \<longrightarrow> ping_loop L (Suc n) s w = ping_loop L n s1 (time_sleep 1000 w1))
   \<and> (ping_loop L n s w = Some (Inr u, s', w') \<longrightarrow>
        (\<exists>m s0 w0 ret'. send_command_and_parse_result L m s0 ping_cmd 2000 False w0 = Some (Inr ret', s', w')
              \<and> is_PONG ret'))
   \<and> (proc s = Some pid \<and> procs w pid = Running \<and> comm_mode s = ''SOCKET''
      \<and> struct_unpack_Q hdr = Inr (length payload) \<and> payload \<noteq> []
      \<and> json_loads L payload = Some (JStr ''PONG'')
      \<and> conn_script w = replicate k (serving [Fail SocketError]) @ [serving [Data hdr, Data payload]] \<longrightarrow>
        (\<exists>w'. ping_loop L (Suc k) s w = Some (Inr (), s, w')
              \<and> sleeps w' = replicate k (Sleep 1000) @ sleeps w))"
proof (intro conjI impI)
  assume "send_command_and_parse_result L n s ping_cmd 2000 False w = Some (Inr ret, s1, w1)
      \<and> ret \<noteq> Absent \<and> \<not> is_PONG ret"
  then show "\<exists>e. ping_loop L (Suc n) s w = Some (Inl e, s1, w1) \<and> (e = AssertionError \<or> e = TypeError)"
    using ping_loop_fatal[of L n s w ret s1 w1] by simp
next
  assume "send_command_and_parse_result L n s ping_cmd 2000 False w = Some (Inr ret, s1, w1) \<and> is_PONG ret"
  then show "ping_loop L (Suc n) s w = Some (Inr (), s1, w1)"
    using ping_loop_PONG[of L n s w ret s1 w1] by simp
next
  assume "send_command_and_parse_result L n s ping_cmd 2000 False w = Some (Inr Absent, s1, w1)"
  then show "ping_loop L (Suc n) s w = ping_loop L n s1 w1" by (rule ping_loop_Absent)
next
  assume "send_command_and_parse_result L n s ping_cmd 2000 False w = Some (Inl e, s1, w1) \<and> is_socket_error e"
  then show "ping_loop L (Suc n) s w = ping_loop L n s1 (time_sleep 1000 w1)"
    using ping_loop_socket_error[of L n s w e s1 w1] by simp
next
  assume "ping_loop L n s w = Some (Inr u, s', w')"
  then show "\<exists>m s0 w0 ret'. send_command_and_parse_result L m s0 ping_cmd 2000 False w0 = Some (Inr ret', s', w')
              \<and> is_PONG ret'" by (rule ping_loop_success_is_PONG)
next
  assume a: "proc s = Some pid \<and> procs w pid = Running \<and> comm_mode s = ''SOCKET''
      \<and> struct_unpack_Q hdr = Inr (length payload) \<and> payload \<noteq> []
      \<and> json_loads L payload = Some (JStr ''PONG'')
      \<and> conn_script w = replicate k (serving [Fail SocketError]) @ [serving [Data hdr, Data payload]]"
  then have "proc s = Some pid" "comm_mode s = ''SOCKET''" "struct_unpack_Q hdr = Inr (length payload)"
    "payload \<noteq> []" "json_loads L payload = Some (JStr ''PONG'')" "procs w pid = Running"
    "conn_script w = replicate k (serving [Fail SocketError]) @ [serving [Data hdr, Data payload]]"
    by simp_all
  from ping_loop_retries[OF this]
  show "\<exists>w'. ping_loop L (Suc k) s w = Some (Inr (), s, w')
              \<and> sleeps w' = replicate k (Sleep 1000) @ sleeps w" .
qed

theorem ping_loop_outcomes_witness:
  "(\<exists>e w1. ping_loop (lib0\<lparr>json_loads := (\<lambda>t. Some (JNum 42))\<rparr>) 1 (session0 ''SOCKET'')
        (world0\<lparr>conn_script := [serving [Data (header 6), Data pong_payload]]\<rparr>)
        = Some (Inl e, session0 ''SOCKET'', w1) \<and> (e = AssertionError \<or> e = TypeError))
   \<and> (\<exists>w'. ping_loop lib0 3 (session0 ''SOCKET'')
        (world0\<lparr>conn_script := [serving [Fail SocketError], serving [Fail SocketError],
                                 serving [Data (header 6), Data pong_payload]]\<rparr>)
        = Some (Inr (), session0 ''SOCKET'', w') \<and> sleeps w' = [Sleep 1000, Sleep 1000])"
proof -
  let ?s = "session0 ''SOCKET''"
  let ?L = "lib0\<lparr>json_loads := (\<lambda>t. Some (JNum 42))\<rparr>"
  let ?w = "world0\<lparr>conn_script := [serving [Data (header 6), Data pong_payload]]\<rparr>"
  let ?v = "world0\<lparr>conn_script := [serving [Fail SocketError], serving [Fail SocketError],
                                 serving [Data (header 6), Data pong_payload]]\<rparr>"
  have s: "proc ?s = Some 0" "comm_mode ?s = ''SOCKET''" by (simp_all add: session0_def)
  have r: "procs ?w 0 = Running" "procs ?v 0 = Running" by (simp_all add: world0_def)
  have cs: "conn_script ?w = Accepted \<lparr>send_fail = None, incoming = [Data (header 6), Data pong_payload]\<rparr> # []"
    by (simp add: world0_def serving_def)
  have p: "length pong_payload = 6" "pong_payload \<noteq> []" by (simp_all add: pong_payload_def)
  have h6: "struct_unpack_Q (header 6) = Inr (length pong_payload)" using unpack_header[of 6] p by simp
  have j: "json_loads ?L pong_payload = Some (JNum 42)" by simp
  from ping_answered[OF s(1) r(1) s(2) cs _ _ h6 p(2) j, of "[]" 0 ping_cmd 2000]
  obtain w1 where p1: "send_command_and_parse_result ?L 0 ?s ping_cmd 2000 False ?w
      = Some (Inr (Decoded (JNum 42)), ?s, w1)" by (auto simp: to_response_def)
  have a: "\<exists>e. ping_loop ?L 1 ?s ?w = Some (Inl e, ?s, w1) \<and> (e = AssertionError \<or> e = TypeError)"
    using ping_loop_outcomes[where L = ?L and n = 0 and s = ?s and w = ?w and ret = "Decoded (JNum 42)"
          and ?s1.0 = ?s and ?w1.0 = w1] p1
    by (simp add: is_PONG_def)
  have j6: "json_loads lib0 pong_payload = Some (JStr ''PONG'')" by (simp add: lib0_def)
  have cv: "conn_script ?v = replicate 2 (serving [Fail SocketError]) @ [serving [Data (header 6), Data pong_payload]]"
    by (simp add: world0_def numeral_2_eq_2)
  have sv: "sleeps ?v = []" by (simp add: sleeps_def world0_def)
  have b: "\<exists>w'. ping_loop lib0 3 ?s ?v = Some (Inr (), ?s, w') \<and> sleeps w' = [Sleep 1000, Sleep 1000]"
    using ping_loop_outcomes[where L = lib0 and s = ?s and w = ?v and pid = 0 and hdr = "header 6"
          and payload = pong_payload and k = 2]
      s r(2) h6 p(2) j6 cv sv
    by (simp add: numeral_2_eq_2 numeral_3_eq_3)
  show ?thesis using a b by blast
qed

end
